theory Spec2Isabelle
  imports Main
begin

section \<open>Go strings and integers\<close>

text \<open>
  Go strings are byte sequences: \<open>string\<close> (a list of 8-bit characters) models them, and
  \<open>[]byte\<close> bodies as well. The three functions of package \<open>strings\<close> that the gateway
  calls are written out for the one-byte separator \<open>/\<close> it passes.
\<close>

text \<open>\<open>strings.Trim(s, cutset)\<close>: drop the leading and trailing bytes that are in the cutset.\<close>

definition strings_Trim :: "string \<Rightarrow> string \<Rightarrow> string" where
  "strings_Trim s cutset =
     rev (dropWhile (\<lambda>c. c \<in> set cutset) (rev (dropWhile (\<lambda>c. c \<in> set cutset) s)))"

text \<open>
  \<open>strings.Split(s, sep)\<close> for a one-byte separator: the pieces between the separators,
  empty pieces included; the empty string splits into one empty piece.
\<close>

fun strings_Split :: "string \<Rightarrow> char \<Rightarrow> string list" where
  "strings_Split [] sep = [[]]"
| "strings_Split (c # cs) sep =
     (if c = sep then [] # strings_Split cs sep
      else (case strings_Split cs sep of
              [] \<Rightarrow> [[c]]
            | p # ps \<Rightarrow> (c # p) # ps))"

text \<open>\<open>strings.TrimPrefix(s, prefix)\<close>.\<close>

definition strings_TrimPrefix :: "string \<Rightarrow> string \<Rightarrow> string" where
  "strings_TrimPrefix s prefix =
     (if take (length prefix) s = prefix then drop (length prefix) s else s)"

text \<open>\<open>strings.Index(s, sep)\<close> for a one-byte separator: the first position, or -1.\<close>

fun strings_Index :: "string \<Rightarrow> char \<Rightarrow> int" where
  "strings_Index [] sep = -1"
| "strings_Index (c # cs) sep =
     (if c = sep then 0
      else (let i = strings_Index cs sep in if i < 0 then -1 else i + 1))"

text \<open>
  Go's \<open>uint64\<close> and \<open>int\<close> (64 bits on the platforms the gateway is built for) are
  modelled as mathematical integers with the wrap-around written out: \<open>u64\<close> reduces to
  the unsigned range, \<open>i64\<close> to the two's-complement range, so \<open>i64 (int n)\<close> is the
  conversion \<open>int(n)\<close> of a \<open>uint64\<close> and \<open>i64 (a + b)\<close> is the sum of two \<open>int\<close>s.
  Go's \<open>%\<close> truncates towards zero: the remainder takes the sign of the dividend.
\<close>

definition u64 :: "nat \<Rightarrow> nat" where
  "u64 n = n mod 2 ^ 64"

definition i64 :: "int \<Rightarrow> int" where
  "i64 x = (x + 2 ^ 63) mod 2 ^ 64 - 2 ^ 63"

definition go_rem :: "int \<Rightarrow> int \<Rightarrow> int" where
  "go_rem a b = sgn a * (\<bar>a\<bar> mod \<bar>b\<bar>)"

datatype go_panic = IndexOutOfRange

text \<open>Indexing a slice: a run-time panic when the index is out of range.\<close>

definition go_index :: "'a list \<Rightarrow> int \<Rightarrow> go_panic + 'a" where
  "go_index xs i = (if 0 \<le> i \<and> i < int (length xs) then Inr (xs ! nat i) else Inl IndexOutOfRange)"

text \<open>\<open>atomic.AddUint64(&c, d)\<close>: the new value of the counter, which it also stores.\<close>

definition atomic_AddUint64 :: "nat \<Rightarrow> nat \<Rightarrow> nat" where
  "atomic_AddUint64 c d = u64 (c + d)"

section \<open>HTTP path parsing (internal/server/http/request.go)\<close>

record HTTPRequest =
  Tenant :: string
  ServiceName :: string
  MethodName :: string
  Body :: string

datatype parse_error =
    InvalidPathFormat string
  | InvalidPrefix string
  | EmptyMethodName
  | EmptyServiceName

text \<open>The components \<open>parts\<close> that \<open>ParseHTTPRequest\<close> computes from the path.\<close>

definition path_parts :: "string \<Rightarrow> string list" where
  "path_parts path = strings_Split (strings_Trim path ''/'') CHR ''/''"

definition ParseHTTPRequest :: "string \<Rightarrow> string \<Rightarrow> parse_error + HTTPRequest" where
  "ParseHTTPRequest path body =
     (let parts = path_parts path in
      if length parts < 3 then Inl (InvalidPathFormat (strings_Trim path ''/''))
      else if parts ! 0 \<noteq> ''rpc'' then Inl (InvalidPrefix (parts ! 0))
      else
        let methodName = parts ! (length parts - 1) in
        if methodName = [] then Inl EmptyMethodName
        else
          let serviceName = parts ! (length parts - 2) in
          if serviceName = [] then Inl EmptyServiceName
          else
            let tenant = (if length parts > 3 then parts ! 1 else []) in
            Inr \<lparr>Tenant = tenant, ServiceName = serviceName,
                 MethodName = methodName, Body = body\<rparr>)"

section \<open>Service instances and load balancers (internal/registry, internal/proxy)\<close>

text \<open>
  \<open>registry.ServiceInstance\<close>. \<open>Metadata\<close> is a Go map, which may be nil: \<open>None\<close> is the
  nil map.
\<close>

record ServiceInstance =
  ID :: string
  Name :: string
  Version :: string
  Address :: string
  Port :: int
  Metadata :: "(string \<rightharpoonup> string) option"
  Tags :: "string list"

record RoundRobinLoadBalancer =
  rr_counter :: nat

definition NewRoundRobinLoadBalancer :: RoundRobinLoadBalancer where
  "NewRoundRobinLoadBalancer = \<lparr>rr_counter = 0\<rparr>"

text \<open>
  \<open>RoundRobinLoadBalancer.Select\<close>: nil on the empty list; otherwise the counter is
  advanced and the instance at \<open>int(index) % len(instances)\<close> is returned. The result is
  the selected instance (or nil, or the panic of the slice access) and the balancer after
  the call.
\<close>

definition RoundRobin_Select ::
  "RoundRobinLoadBalancer \<Rightarrow> ServiceInstance list \<Rightarrow>
     (go_panic + ServiceInstance option) \<times> RoundRobinLoadBalancer" where
  "RoundRobin_Select lb instances =
     (if length instances = 0 then (Inr None, lb)
      else
        let index = atomic_AddUint64 (rr_counter lb) 1;
            lb' = lb\<lparr>rr_counter := index\<rparr>
        in (case go_index instances (go_rem (i64 (int index)) (int (length instances))) of
              Inl p \<Rightarrow> (Inl p, lb')
            | Inr x \<Rightarrow> (Inr (Some x), lb')))"

text \<open>
  \<open>k\<close> sequential selections over a fixed list: the instances selected, in order, and
  the balancer afterwards; a panic ends the run.
\<close>

fun rr_selections ::
  "RoundRobinLoadBalancer \<Rightarrow> ServiceInstance list \<Rightarrow> nat \<Rightarrow>
     go_panic + (ServiceInstance list \<times> RoundRobinLoadBalancer)" where
  "rr_selections lb instances 0 = Inr ([], lb)"
| "rr_selections lb instances (Suc k) =
     (case rr_selections lb instances k of
        Inl p \<Rightarrow> Inl p
      | Inr (sel, lb') \<Rightarrow>
          (case RoundRobin_Select lb' instances of
             (Inl p, lb'') \<Rightarrow> Inl p
           | (Inr None, lb'') \<Rightarrow> Inr (sel, lb'')
           | (Inr (Some x), lb'') \<Rightarrow> Inr (sel @ [x], lb'')))"

record WeightedLoadBalancer =
  wl_counter :: nat

definition NewWeightedLoadBalancer :: WeightedLoadBalancer where
  "NewWeightedLoadBalancer = \<lparr>wl_counter = 0\<rparr>"

text \<open>
  \<open>getWeight\<close>. \<open>fmt.Sscanf(weightStr, "%d", &weight)\<close> belongs to Go's library and is a
  parameter: \<open>Sscanf_d s\<close> is \<open>None\<close> when the scan returns an error and the scanned value
  otherwise, stored in an \<open>int\<close>.
\<close>

definition getWeight :: "(string \<Rightarrow> int option) \<Rightarrow> ServiceInstance \<Rightarrow> int" where
  "getWeight Sscanf_d instance =
     (case Metadata instance of
        None \<Rightarrow> 1
      | Some md \<Rightarrow>
          (case md ''weight'' of
             Some weightStr \<Rightarrow>
               (case Sscanf_d weightStr of
                  Some weight \<Rightarrow> if i64 weight > 0 then i64 weight else 1
                | None \<Rightarrow> 1)
           | None \<Rightarrow> 1))"

text \<open>The first loop of \<open>WeightedLoadBalancer.Select\<close>: \<open>totalWeight += weight\<close>.\<close>

fun totalWeight_loop :: "(ServiceInstance \<Rightarrow> int) \<Rightarrow> int \<Rightarrow> ServiceInstance list \<Rightarrow> int" where
  "totalWeight_loop gw totalWeight [] = totalWeight"
| "totalWeight_loop gw totalWeight (instance # rest) =
     totalWeight_loop gw (i64 (totalWeight + gw instance)) rest"

text \<open>
  The second loop: accumulate \<open>currentWeight\<close> and return the first instance with
  \<open>offset < currentWeight\<close>; \<open>None\<close> when the loop runs to its end.
\<close>

fun weighted_walk ::
  "(ServiceInstance \<Rightarrow> int) \<Rightarrow> int \<Rightarrow> int \<Rightarrow> ServiceInstance list \<Rightarrow> ServiceInstance option" where
  "weighted_walk gw offset currentWeight [] = None"
| "weighted_walk gw offset currentWeight (instance # rest) =
     (let currentWeight' = i64 (currentWeight + gw instance) in
      if offset < currentWeight' then Some instance
      else weighted_walk gw offset currentWeight' rest)"

text \<open>
  Which branch a call of \<open>WeightedLoadBalancer.Select\<close> takes is part of its result, so
  that properties of the \<open>totalWeight == 0\<close> branch can be stated.
\<close>

datatype weighted_branch = EmptyList | RoundRobinFallback | WeightedWalk | WalkFellThrough

definition Weighted_Select ::
  "(string \<Rightarrow> int option) \<Rightarrow> WeightedLoadBalancer \<Rightarrow> ServiceInstance list \<Rightarrow>
     (go_panic + ServiceInstance option) \<times> weighted_branch \<times> WeightedLoadBalancer" where
  "Weighted_Select Sscanf_d lb instances =
     (if length instances = 0 then (Inr None, EmptyList, lb)
      else
        let totalWeight = totalWeight_loop (getWeight Sscanf_d) 0 instances in
        if totalWeight = 0 then
          (let index = atomic_AddUint64 (wl_counter lb) 1;
               lb' = lb\<lparr>wl_counter := index\<rparr>
           in (case go_index instances (go_rem (i64 (int index)) (int (length instances))) of
                 Inl p \<Rightarrow> (Inl p, RoundRobinFallback, lb')
               | Inr x \<Rightarrow> (Inr (Some x), RoundRobinFallback, lb')))
        else
          (let index = atomic_AddUint64 (wl_counter lb) 1;
               lb' = lb\<lparr>wl_counter := index\<rparr>;
               offset = go_rem (i64 (int index)) totalWeight
           in (case weighted_walk (getWeight Sscanf_d) offset 0 instances of
                 Some instance \<Rightarrow> (Inr (Some instance), WeightedWalk, lb')
               | None \<Rightarrow>
                   (case go_index instances 0 of
                      Inl p \<Rightarrow> (Inl p, WalkFellThrough, lb')
                    | Inr x \<Rightarrow> (Inr (Some x), WalkFellThrough, lb')))))"

fun wl_selections ::
  "(string \<Rightarrow> int option) \<Rightarrow> WeightedLoadBalancer \<Rightarrow> ServiceInstance list \<Rightarrow> nat \<Rightarrow>
     go_panic + (ServiceInstance list \<times> WeightedLoadBalancer)" where
  "wl_selections Sscanf_d lb instances 0 = Inr ([], lb)"
| "wl_selections Sscanf_d lb instances (Suc k) =
     (case wl_selections Sscanf_d lb instances k of
        Inl p \<Rightarrow> Inl p
      | Inr (sel, lb') \<Rightarrow>
          (case Weighted_Select Sscanf_d lb' instances of
             (Inl p, b, lb'') \<Rightarrow> Inl p
           | (Inr None, b, lb'') \<Rightarrow> Inr (sel, lb'')
           | (Inr (Some x), b, lb'') \<Rightarrow> Inr (sel @ [x], lb'')))"

text \<open>A service instance for the examples: \<open>w\<close> is its \<open>weight\<close> metadata, if any.\<close>

definition example_instance :: "string \<Rightarrow> string option \<Rightarrow> ServiceInstance" where
  "example_instance i w =
     \<lparr>ID = i, Name = ''echo.Echo'', Version = [], Address = ''127.0.0.1'', Port = 50051,
      Metadata = (case w of None \<Rightarrow> None | Some s \<Rightarrow> Some [''weight'' \<mapsto> s]), Tags = []\<rparr>"

text \<open>
  A scanner for the examples. On a non-empty string of decimal digits \<open>Sscanf\<close> with
  \<open>%d\<close> yields the number they denote when it fits an \<open>int\<close>; the examples pass only
  such strings.
\<close>

definition scan_digits :: "string \<Rightarrow> int option" where
  "scan_digits s =
     (if s \<noteq> [] \<and> list_all (\<lambda>c. c \<in> set ''0123456789'') s
      then (let v = foldl (\<lambda>a c. 10 * a + (of_char c - 48)) 0 s
            in if v < 2 ^ 63 then Some v else None)
      else None)"

text \<open>Four instances whose weights are \<open>2^62\<close> each.\<close>

definition heavy_instances :: "ServiceInstance list" where
  "heavy_instances =
     [example_instance ''a'' (Some ''4611686018427387904''),
      example_instance ''b'' (Some ''4611686018427387904''),
      example_instance ''c'' (Some ''4611686018427387904''),
      example_instance ''d'' (Some ''4611686018427387904'')]"

section \<open>Descriptor loader (internal/proto)\<close>

text \<open>
  The parts of the \<open>descriptorpb\<close> messages that the loader reads. The getters
  (\<open>GetName\<close>, \<open>GetPackage\<close>, \<open>GetInputType\<close>, \<open>GetOutputType\<close>) return the empty string
  for an unset field, so an unset name is \<open>''''\<close>.
\<close>

datatype DescriptorProto =
  DescriptorProto (msg_name: string) (nested_type: "DescriptorProto list")

record MethodDescriptorProto =
  method_name :: string
  input_type :: string
  output_type :: string

record ServiceDescriptorProto =
  service_name :: string
  methods :: "MethodDescriptorProto list"

record FileDescriptorProto =
  file_name :: string
  package :: string
  message_type :: "DescriptorProto list"
  service :: "ServiceDescriptorProto list"

text \<open>The \<open>File\<close> field of the loader's \<open>FileDescriptorSet\<close>.\<close>

type_synonym FileDescriptorSet = "FileDescriptorProto list"

fun FindServiceDescriptor :: "FileDescriptorSet \<Rightarrow> string \<Rightarrow> ServiceDescriptorProto option" where
  "FindServiceDescriptor [] fullName = None"
| "FindServiceDescriptor (file # rest) fullName =
     (case find (\<lambda>s. package file @ ''.'' @ service_name s = fullName) (service file) of
        Some s \<Rightarrow> Some s
      | None \<Rightarrow> FindServiceDescriptor rest fullName)"

definition FindMethodDescriptor ::
  "FileDescriptorSet \<Rightarrow> string \<Rightarrow> string \<Rightarrow> MethodDescriptorProto option" where
  "FindMethodDescriptor fileSet serviceName methodName =
     (case FindServiceDescriptor fileSet serviceName of
        None \<Rightarrow> None
      | Some s \<Rightarrow> find (\<lambda>m. method_name m = methodName) (methods s))"

text \<open>
  \<open>findNestedMessage\<close> loops over \<open>msg.NestedType\<close>; \<open>findNestedMessage_loop\<close> is that loop
  from some position on.
\<close>

fun findNestedMessage :: "DescriptorProto \<Rightarrow> string \<Rightarrow> string \<Rightarrow> DescriptorProto option"
  and findNestedMessage_loop :: "DescriptorProto list \<Rightarrow> string \<Rightarrow> string \<Rightarrow> DescriptorProto option"
  where
  "findNestedMessage (DescriptorProto n ns) fullName prefix =
     findNestedMessage_loop ns fullName prefix"
| "findNestedMessage_loop [] fullName prefix = None"
| "findNestedMessage_loop (nested # rest) fullName prefix =
     (let fullNestedName = prefix @ ''.'' @ msg_name nested in
      if fullNestedName = fullName then Some nested
      else (case findNestedMessage nested fullName fullNestedName of
              Some found \<Rightarrow> Some found
            | None \<Rightarrow> findNestedMessage_loop rest fullName prefix))"

text \<open>\<open>findMessageInFile\<close>, as a loop over \<open>file.MessageType\<close>.\<close>

fun findMessageInFile_loop ::
  "DescriptorProto list \<Rightarrow> string \<Rightarrow> string \<Rightarrow> DescriptorProto option" where
  "findMessageInFile_loop [] fullName pkgPrefix = None"
| "findMessageInFile_loop (msg # rest) fullName pkgPrefix =
     (let fullMsgName = pkgPrefix @ ''.'' @ msg_name msg in
      if fullMsgName = fullName then Some msg
      else (case findNestedMessage msg fullName fullMsgName of
              Some nested \<Rightarrow> Some nested
            | None \<Rightarrow> findMessageInFile_loop rest fullName pkgPrefix))"

definition findMessageInFile ::
  "FileDescriptorProto \<Rightarrow> string \<Rightarrow> string \<Rightarrow> DescriptorProto option" where
  "findMessageInFile file fullName pkgPrefix =
     findMessageInFile_loop (message_type file) fullName pkgPrefix"

fun FindMessageDescriptor :: "FileDescriptorSet \<Rightarrow> string \<Rightarrow> DescriptorProto option" where
  "FindMessageDescriptor [] fullName = None"
| "FindMessageDescriptor (file # rest) fullName =
     (case findMessageInFile file fullName (package file) of
        Some msg \<Rightarrow> Some msg
      | None \<Rightarrow> FindMessageDescriptor rest fullName)"

text \<open>
  The messages a descriptor set declares, each with its dotted name: the package, then the
  names of the enclosing messages, then its own name, joined by \<open>.\<close>; a message comes
  before the messages nested in it, and files and messages are listed in their order.
\<close>

fun declared_in :: "string \<Rightarrow> DescriptorProto \<Rightarrow> (string \<times> DescriptorProto) list" where
  "declared_in prefix (DescriptorProto n ns) =
     (prefix @ ''.'' @ n, DescriptorProto n ns) #
       concat (map (declared_in (prefix @ ''.'' @ n)) ns)"

definition declared_messages :: "FileDescriptorSet \<Rightarrow> (string \<times> DescriptorProto) list" where
  "declared_messages fileSet =
     concat (map (\<lambda>file. concat (map (declared_in (package file)) (message_type file))) fileSet)"

text \<open>A descriptor set for the examples: one file, whose method \<open>Say\<close> has the given types.\<close>

definition echo_file :: "string \<Rightarrow> string \<Rightarrow> FileDescriptorProto" where
  "echo_file inp outp =
     \<lparr>file_name = ''echo.proto'', package = ''echo'',
      message_type = [DescriptorProto ''Req'' [], DescriptorProto ''Reply'' []],
      service = [\<lparr>service_name = ''Echo'',
                  methods = [\<lparr>method_name = ''Say'', input_type = inp, output_type = outp\<rparr>]\<rparr>]\<rparr>"

section \<open>Go errors, gRPC status and results\<close>

datatype codes =
    OK | Canceled | Unknown | InvalidArgument | DeadlineExceeded | NotFound | AlreadyExists
  | PermissionDenied | ResourceExhausted | FailedPrecondition | Aborted | OutOfRange
  | Unimplemented | Internal | Unavailable | DataLoss | Unauthenticated

text \<open>
  A Go \<open>error\<close> value: a gRPC status error, as \<open>status.Errorf\<close> builds and a backend
  returns, with its code and message; or any other error, with its text.
\<close>

datatype go_error = StatusError codes string | PlainError string

fun code_String :: "codes \<Rightarrow> string" where
  "code_String OK = ''OK''"
| "code_String Canceled = ''Canceled''"
| "code_String Unknown = ''Unknown''"
| "code_String InvalidArgument = ''InvalidArgument''"
| "code_String DeadlineExceeded = ''DeadlineExceeded''"
| "code_String NotFound = ''NotFound''"
| "code_String AlreadyExists = ''AlreadyExists''"
| "code_String PermissionDenied = ''PermissionDenied''"
| "code_String ResourceExhausted = ''ResourceExhausted''"
| "code_String FailedPrecondition = ''FailedPrecondition''"
| "code_String Aborted = ''Aborted''"
| "code_String OutOfRange = ''OutOfRange''"
| "code_String Unimplemented = ''Unimplemented''"
| "code_String Internal = ''Internal''"
| "code_String Unavailable = ''Unavailable''"
| "code_String DataLoss = ''DataLoss''"
| "code_String Unauthenticated = ''Unauthenticated''"

text \<open>\<open>err.Error()\<close>, which \<open>%v\<close> and \<open>%w\<close> print.\<close>

fun Error :: "go_error \<Rightarrow> string" where
  "Error (StatusError c msg) = ''rpc error: code = '' @ code_String c @ '' desc = '' @ msg"
| "Error (PlainError msg) = msg"

text \<open>The outcome of a call that may panic, return an error, or return a value.\<close>

datatype 'a result = Panic go_panic | Err go_error | Ok 'a

text \<open>\<open>%d\<close> of an \<open>int\<close>.\<close>

fun decimal :: "nat \<Rightarrow> string" where
  "decimal n =
     (if n < 10 then [''0123456789'' ! n]
      else decimal (n div 10) @ [''0123456789'' ! (n mod 10)])"

declare decimal.simps [simp del]

definition Itoa :: "int \<Rightarrow> string" where
  "Itoa i = (if i < 0 then CHR ''-'' # decimal (nat (- i)) else decimal (nat i))"

text \<open>\<open>fmt.Sprintf("%s:%d", instance.Address, instance.Port)\<close>.\<close>

definition target_of :: "ServiceInstance \<Rightarrow> string" where
  "target_of instance = Address instance @ '':'' @ Itoa (Port instance)"

section \<open>The world outside the gateway\<close>

text \<open>
  A \<open>*grpc.ClientConn\<close> is identified by a number; its connectivity state belongs to the
  gRPC runtime. Dynamic messages live in a heap, addressed by their position, so that two
  references to one message can be told from two equal messages. The world also records
  the targets dialled and the unary calls invoked so far, in order.
\<close>

datatype connectivity = Idle | Connecting | Ready | TransientFailure | Shutdown

type_synonym ClientConn = nat

record 'm world =
  heap :: "'m list"
  conn_state :: "ClientConn \<Rightarrow> connectivity"
  dialed :: "string list"
  invoked :: "(ClientConn \<times> string \<times> 'm) list"

text \<open>
  What the gateway calls outside its own code, as parameters:
  \<^item> \<open>NewFile_Messages\<close>: \<open>protodesc.NewFile\<close> followed by \<open>fd.Messages()\<close>: \<open>None\<close> when
    \<open>NewFile\<close> fails, otherwise the top-level message descriptors, each with its \<open>FullName\<close>;
  \<^item> \<open>NewMessage\<close>: \<open>dynamicpb.NewMessage\<close>;
  \<^item> \<open>Unmarshal\<close>: \<open>protojson.Unmarshal\<close> into a message: the error, if any, and the
    message afterwards;
  \<^item> \<open>Marshal\<close>: \<open>protojson.Marshal\<close>;
  \<^item> \<open>Discover\<close>: the registry's \<open>Discover\<close>;
  \<^item> \<open>Dial\<close>: \<open>grpc.Dial\<close> with the pool's options, given the targets dialled before;
  \<^item> \<open>Invoke\<close>: \<open>conn.Invoke\<close>, given the calls invoked before: the error, if any, and
    the response message afterwards;
  \<^item> \<open>NewStream\<close>: \<open>conn.NewStream\<close> for a stream name and a method;
  \<^item> \<open>forwardStream\<close>: the outcome of the forwarder's two concurrent pumps.
\<close>

record ServerStream =
  MethodFromServerStream :: "string option"

record ('d, 'm, 'cs) externals =
  NewFile_Messages :: "FileDescriptorProto \<Rightarrow> (string \<times> 'd) list option"
  NewMessage :: "'d \<Rightarrow> 'm"
  Unmarshal :: "string \<Rightarrow> 'm \<Rightarrow> go_error option \<times> 'm"
  Marshal :: "'m \<Rightarrow> go_error + string"
  Discover :: "string \<Rightarrow> go_error + ServiceInstance list"
  Dial :: "string list \<Rightarrow> string \<Rightarrow> go_error + ClientConn"
  Invoke :: "(ClientConn \<times> string \<times> 'm) list \<Rightarrow> ClientConn \<Rightarrow> string \<Rightarrow> 'm \<Rightarrow> 'm \<Rightarrow>
               go_error option \<times> 'm"
  NewStream :: "ClientConn \<Rightarrow> string \<Rightarrow> string \<Rightarrow> go_error + 'cs"
  forwardStream :: "ServerStream \<Rightarrow> 'cs \<Rightarrow> go_error option"

section \<open>Connection pool (internal/proxy)\<close>

record ConnectionPool =
  connections :: "string \<rightharpoonup> ClientConn"

definition NewConnectionPool :: ConnectionPool where
  "NewConnectionPool = \<lparr>connections = Map.empty\<rparr>"

text \<open>\<open>state != connectivity.Shutdown && state != connectivity.TransientFailure\<close>.\<close>

definition usable :: "'m world \<Rightarrow> ClientConn \<Rightarrow> bool" where
  "usable w conn = (conn_state w conn \<noteq> Shutdown \<and> conn_state w conn \<noteq> TransientFailure)"

text \<open>The end of \<open>GetConnection\<close>: dial, and store the connection when the dial succeeds.\<close>

definition GetConnection_dial ::
  "('d, 'm, 'cs) externals \<Rightarrow> ConnectionPool \<Rightarrow> 'm world \<Rightarrow> string \<Rightarrow>
     (go_error + ClientConn) \<times> ConnectionPool \<times> 'm world" where
  "GetConnection_dial ext p w target =
     (let w' = w\<lparr>dialed := dialed w @ [target]\<rparr> in
      case Dial ext (dialed w) target of
        Inl err \<Rightarrow> (Inl err, p, w')
      | Inr conn \<Rightarrow> (Inr conn, p\<lparr>connections := (connections p)(target \<mapsto> conn)\<rparr>, w'))"

text \<open>
  The part of \<open>GetConnection\<close> under the write lock: the second check, the eviction of an
  unusable connection (\<open>conn.Close()\<close> shuts it down), the dial.
\<close>

definition GetConnection_locked ::
  "('d, 'm, 'cs) externals \<Rightarrow> ConnectionPool \<Rightarrow> 'm world \<Rightarrow> string \<Rightarrow>
     (go_error + ClientConn) \<times> ConnectionPool \<times> 'm world" where
  "GetConnection_locked ext p w target =
     (case connections p target of
        Some conn \<Rightarrow>
          if usable w conn then (Inr conn, p, w)
          else GetConnection_dial ext
                 (p\<lparr>connections := (connections p)(target := None)\<rparr>)
                 (w\<lparr>conn_state := (conn_state w)(conn := Shutdown)\<rparr>) target
      | None \<Rightarrow> GetConnection_dial ext p w target)"

definition GetConnection ::
  "('d, 'm, 'cs) externals \<Rightarrow> ConnectionPool \<Rightarrow> 'm world \<Rightarrow> string \<Rightarrow>
     (go_error + ClientConn) \<times> ConnectionPool \<times> 'm world" where
  "GetConnection ext p w target =
     (case connections p target of
        Some conn \<Rightarrow>
          if usable w conn then (Inr conn, p, w)
          else GetConnection_locked ext p w target
      | None \<Rightarrow> GetConnection_locked ext p w target)"

section \<open>HTTP to gRPC transcoder (internal/proxy/http_proxy.go)\<close>

text \<open>
  \<open>loadBalance\<close> has the interface type \<open>LoadBalancer\<close>: the state of the balancer is a
  field of any type, and its \<open>Select\<close> method is a parameter \<open>sel\<close> of the functions that
  call it. \<open>msgCache\<close> maps a message type to the address of its prototype in the heap.
\<close>

record 'lb HTTPProxy =
  protoLoader :: FileDescriptorSet
  connPool :: ConnectionPool
  loadBalance :: "'lb"
  msgCache :: "string \<rightharpoonup> nat"

text \<open>The proxy that \<open>NewHTTPProxy\<close> returns once it has registered the files.\<close>

definition NewHTTPProxy :: "FileDescriptorSet \<Rightarrow> RoundRobinLoadBalancer HTTPProxy" where
  "NewHTTPProxy fileSet =
     \<lparr>protoLoader = fileSet, connPool = NewConnectionPool,
      loadBalance = NewRoundRobinLoadBalancer, msgCache = Map.empty\<rparr>"

fun findFullMessageDescriptor_loop ::
  "(FileDescriptorProto \<Rightarrow> (string \<times> 'd) list option) \<Rightarrow> FileDescriptorProto list \<Rightarrow> string \<Rightarrow>
     'd option" where
  "findFullMessageDescriptor_loop nf [] fullName = None"
| "findFullMessageDescriptor_loop nf (fileProto # rest) fullName =
     (case nf fileProto of
        None \<Rightarrow> findFullMessageDescriptor_loop nf rest fullName
      | Some msgs \<Rightarrow>
          (case find (\<lambda>msg. fst msg = fullName) msgs of
             Some msg \<Rightarrow> Some (snd msg)
           | None \<Rightarrow> findFullMessageDescriptor_loop nf rest fullName))"

definition findFullMessageDescriptor ::
  "('d, 'm, 'cs) externals \<Rightarrow> 'lb HTTPProxy \<Rightarrow> string \<Rightarrow> 'd option" where
  "findFullMessageDescriptor ext p fullName =
     findFullMessageDescriptor_loop (NewFile_Messages ext) (protoLoader p) fullName"

text \<open>
  \<open>createDynamicMessage\<close> returns the address of a message. On a cache hit it is the
  address of a fresh copy of the prototype (\<open>proto.Clone\<close>); on a miss the new message is
  stored in the cache and its own address is returned. The cache holds addresses that this
  function has allocated, so they are within the heap.
\<close>

definition createDynamicMessage ::
  "('d, 'm, 'cs) externals \<Rightarrow> 'lb HTTPProxy \<Rightarrow> 'm world \<Rightarrow> string \<Rightarrow>
     (go_error + nat) \<times> 'lb HTTPProxy \<times> 'm world" where
  "createDynamicMessage ext p w messageType =
     (case msgCache p messageType of
        Some cached \<Rightarrow>
          (Inr (length (heap w)), p, w\<lparr>heap := heap w @ [heap w ! cached]\<rparr>)
      | None \<Rightarrow>
          (case findFullMessageDescriptor ext p messageType of
             None \<Rightarrow> (Inl (PlainError (''message descriptor not found: '' @ messageType)), p, w)
           | Some msgFullDesc \<Rightarrow>
               (let msg = length (heap w) in
                (Inr msg, p\<lparr>msgCache := (msgCache p)(messageType \<mapsto> msg)\<rparr>,
                 w\<lparr>heap := heap w @ [NewMessage ext msgFullDesc]\<rparr>))))"

definition ClearMessageCache :: "'lb HTTPProxy \<Rightarrow> 'lb HTTPProxy" where
  "ClearMessageCache p = p\<lparr>msgCache := Map.empty\<rparr>"

definition jsonToProtobuf ::
  "('d, 'm, 'cs) externals \<Rightarrow> 'lb HTTPProxy \<Rightarrow> 'm world \<Rightarrow> string \<Rightarrow> string \<Rightarrow>
     (go_error + nat) \<times> 'lb HTTPProxy \<times> 'm world" where
  "jsonToProtobuf ext p w jsonData messageType =
     (case createDynamicMessage ext p w messageType of
        (Inl err, p', w') \<Rightarrow> (Inl err, p', w')
      | (Inr msg, p', w') \<Rightarrow>
          (case Unmarshal ext jsonData (heap w' ! msg) of
             (Some err, m) \<Rightarrow>
               (Inl (PlainError (''failed to unmarshal JSON: '' @ Error err)), p',
                w'\<lparr>heap := (heap w')[msg := m]\<rparr>)
           | (None, m) \<Rightarrow> (Inr msg, p', w'\<lparr>heap := (heap w')[msg := m]\<rparr>)))"

definition invokeUnary ::
  "('d, 'm, 'cs) externals \<Rightarrow> 'lb HTTPProxy \<Rightarrow> 'm world \<Rightarrow> ClientConn \<Rightarrow> string \<Rightarrow> nat \<Rightarrow>
     MethodDescriptorProto \<Rightarrow> string result \<times> 'lb HTTPProxy \<times> 'm world" where
  "invokeUnary ext p w conn fullMethod requestMsg methodDesc =
     (let outputType = output_type methodDesc in
      if outputType = [] then (Err (StatusError Internal ''method output type not specified''), p, w)
      else
        (case createDynamicMessage ext p w outputType of
           (Inl err, p', w') \<Rightarrow>
             (Err (StatusError Internal (''failed to create response message: '' @ Error err)), p', w')
         | (Inr responseMsg, p', w') \<Rightarrow>
             (case Invoke ext (invoked w') conn fullMethod (heap w' ! requestMsg)
                     (heap w' ! responseMsg) of
                (e, m) \<Rightarrow>
                  (let w'' = w'\<lparr>heap := (heap w')[responseMsg := m],
                               invoked := invoked w' @ [(conn, fullMethod, heap w' ! requestMsg)]\<rparr>
                   in case e of
                        Some err \<Rightarrow> (Err err, p', w'')
                      | None \<Rightarrow>
                          (case Marshal ext m of
                             Inl err \<Rightarrow> (Err err, p', w'')
                           | Inr bytes \<Rightarrow> (Ok bytes, p', w''))))))"

definition ProxyHTTPRequest ::
  "('d, 'm, 'cs) externals \<Rightarrow>
   ('lb \<Rightarrow> ServiceInstance list \<Rightarrow> (go_panic + ServiceInstance option) \<times> 'lb) \<Rightarrow>
   'lb HTTPProxy \<Rightarrow> 'm world \<Rightarrow> string \<Rightarrow> string \<Rightarrow> string \<Rightarrow>
     string result \<times> 'lb HTTPProxy \<times> 'm world" where
  "ProxyHTTPRequest ext sel p w serviceName methodName jsonBody =
     (case FindMethodDescriptor (protoLoader p) serviceName methodName of
        None \<Rightarrow>
          (Err (StatusError NotFound (''method not found: '' @ serviceName @ ''/'' @ methodName)), p, w)
      | Some methodDesc \<Rightarrow>
          (let inputType = input_type methodDesc in
           if inputType = [] then
             (Err (StatusError Internal ''method input type not specified''), p, w)
           else
             (case jsonToProtobuf ext p w jsonBody inputType of
                (Inl err, p1, w1) \<Rightarrow>
                  (Err (StatusError InvalidArgument (''failed to unmarshal request: '' @ Error err)),
                   p1, w1)
              | (Inr requestMsg, p1, w1) \<Rightarrow>
                  (case Discover ext serviceName of
                     Inl err \<Rightarrow>
                       (Err (StatusError Unavailable
                          (''failed to discover service '' @ serviceName @ '': '' @ Error err)), p1, w1)
                   | Inr instances \<Rightarrow>
                       if length instances = 0 then
                         (Err (StatusError Unavailable
                            (''no available instances for service: '' @ serviceName)), p1, w1)
                       else
                         (case sel (loadBalance p1) instances of
                            (Inl pn, lb) \<Rightarrow> (Panic pn, p1\<lparr>loadBalance := lb\<rparr>, w1)
                          | (Inr None, lb) \<Rightarrow>
                              (Err (StatusError Unavailable
                                 (''failed to select instance for service: '' @ serviceName)),
                               p1\<lparr>loadBalance := lb\<rparr>, w1)
                          | (Inr (Some instance), lb) \<Rightarrow>
                              (let target = target_of instance;
                                   p2 = p1\<lparr>loadBalance := lb\<rparr>
                               in case GetConnection ext (connPool p2) w1 target of
                                    (Inl err, pool, w2) \<Rightarrow>
                                      (Err (StatusError Unavailable
                                         (''failed to connect to backend '' @ target @ '': '' @ Error err)),
                                       p2\<lparr>connPool := pool\<rparr>, w2)
                                  | (Inr conn, pool, w2) \<Rightarrow>
                                      invokeUnary ext (p2\<lparr>connPool := pool\<rparr>) w2 conn
                                        (''/'' @ serviceName @ ''/'' @ methodName) requestMsg
                                        methodDesc))))))"

section \<open>HTTP ingress (internal/server/http)\<close>

record http_request =
  r_URL_Path :: string
  r_Method :: string
  r_Body :: "go_error + string"

record http_response =
  StatusCode :: nat
  ContentType :: "string option"
  Written :: string

record 'lb HTTPServer =
  httpProxy :: "'lb HTTPProxy option"

text \<open>The text of the errors of \<open>ParseHTTPRequest\<close>.\<close>

fun parse_error_string :: "parse_error \<Rightarrow> string" where
  "parse_error_string (InvalidPathFormat path) =
     ''invalid path format, expected /rpc/{service}/{method} or /rpc/{tenant}/{service}/{method}, got /''
       @ path"
| "parse_error_string (InvalidPrefix part) = ''invalid path, expected /rpc prefix, got /'' @ part"
| "parse_error_string EmptyMethodName = ''method name cannot be empty''"
| "parse_error_string EmptyServiceName = ''service name cannot be empty''"

text \<open>
  \<open>handleRequest\<close>: the response written, and the server and the world afterwards.
  \<open>r_Body\<close> is the result of \<open>io.ReadAll(r.Body)\<close>.
\<close>

definition handleRequest ::
  "('d, 'm, 'cs) externals \<Rightarrow>
   ('lb \<Rightarrow> ServiceInstance list \<Rightarrow> (go_panic + ServiceInstance option) \<times> 'lb) \<Rightarrow>
   'lb HTTPServer \<Rightarrow> 'm world \<Rightarrow> http_request \<Rightarrow>
     (go_panic + http_response) \<times> 'lb HTTPServer \<times> 'm world" where
  "handleRequest ext sel s w r =
     (if r_URL_Path r = ''/health'' then
        (Inr \<lparr>StatusCode = 200, ContentType = None, Written = ''HTTP Server is healthy''\<rparr>, s, w)
      else
        (case httpProxy s of
           None \<Rightarrow>
             (Inr \<lparr>StatusCode = 500, ContentType = None, Written = ''HTTP proxy not configured''\<rparr>,
              s, w)
         | Some p \<Rightarrow>
             if r_Method r \<noteq> ''POST'' then
               (Inr \<lparr>StatusCode = 405, ContentType = None,
                     Written = ''Only POST method is allowed''\<rparr>, s, w)
             else
               (case r_Body r of
                  Inl err \<Rightarrow>
                    (Inr \<lparr>StatusCode = 400, ContentType = None,
                          Written = ''Failed to read request body: '' @ Error err\<rparr>, s, w)
                | Inr body \<Rightarrow>
                    (case ParseHTTPRequest (r_URL_Path r) body of
                       Inl err \<Rightarrow>
                         (Inr \<lparr>StatusCode = 400, ContentType = None,
                               Written = ''Invalid request: '' @ parse_error_string err\<rparr>, s, w)
                     | Inr httpReq \<Rightarrow>
                         (case ProxyHTTPRequest ext sel p w (ServiceName httpReq)
                                 (MethodName httpReq) body of
                            (Panic pn, p', w') \<Rightarrow> (Inl pn, s\<lparr>httpProxy := Some p'\<rparr>, w')
                          | (Err err, p', w') \<Rightarrow>
                              (Inr \<lparr>StatusCode = 500, ContentType = None,
                                    Written = ''RPC call failed: '' @ Error err\<rparr>,
                               s\<lparr>httpProxy := Some p'\<rparr>, w')
                          | (Ok response, p', w') \<Rightarrow>
                              (Inr \<lparr>StatusCode = 200, ContentType = Some ''application/json'',
                                    Written = response\<rparr>,
                               s\<lparr>httpProxy := Some p'\<rparr>, w'))))))"

section \<open>gRPC stream forwarder and ingress (internal/proxy, internal/server/grpc)\<close>

record 'lb GRPCProxy =
  g_connPool :: ConnectionPool
  g_loadBalance :: "'lb"

definition NewGRPCProxy :: "RoundRobinLoadBalancer GRPCProxy" where
  "NewGRPCProxy = \<lparr>g_connPool = NewConnectionPool, g_loadBalance = NewRoundRobinLoadBalancer\<rparr>"

definition ProxyStream ::
  "('d, 'm, 'cs) externals \<Rightarrow>
   ('lb \<Rightarrow> ServiceInstance list \<Rightarrow> (go_panic + ServiceInstance option) \<times> 'lb) \<Rightarrow>
   'lb GRPCProxy \<Rightarrow> 'm world \<Rightarrow> string \<Rightarrow> string \<Rightarrow> ServerStream \<Rightarrow>
     unit result \<times> 'lb GRPCProxy \<times> 'm world" where
  "ProxyStream ext sel p w serviceName fullMethod stream =
     (case Discover ext serviceName of
        Inl err \<Rightarrow>
          (Err (StatusError Unavailable
             (''failed to discover service '' @ serviceName @ '': '' @ Error err)), p, w)
      | Inr instances \<Rightarrow>
          if length instances = 0 then
            (Err (StatusError Unavailable
               (''no available instances for service: '' @ serviceName)), p, w)
          else
            (case sel (g_loadBalance p) instances of
               (Inl pn, lb) \<Rightarrow> (Panic pn, p\<lparr>g_loadBalance := lb\<rparr>, w)
             | (Inr None, lb) \<Rightarrow>
                 (Err (StatusError Unavailable
                    (''failed to select instance for service: '' @ serviceName)),
                  p\<lparr>g_loadBalance := lb\<rparr>, w)
             | (Inr (Some instance), lb) \<Rightarrow>
                 (let target = target_of instance;
                      p1 = p\<lparr>g_loadBalance := lb\<rparr>
                  in case GetConnection ext (g_connPool p1) w target of
                       (Inl err, pool, w1) \<Rightarrow>
                         (Err (StatusError Unavailable
                            (''failed to connect to backend '' @ target @ '': '' @ Error err)),
                          p1\<lparr>g_connPool := pool\<rparr>, w1)
                     | (Inr conn, pool, w1) \<Rightarrow>
                         (let methodNams = strings_Split fullMethod CHR ''/'';
                              p2 = p1\<lparr>g_connPool := pool\<rparr>
                          in case go_index methodNams 1 of
                               Inl pn \<Rightarrow> (Panic pn, p2, w1)
                             | Inr streamName \<Rightarrow>
                                 (case NewStream ext conn streamName fullMethod of
                                    Inl err \<Rightarrow>
                                      (Err (StatusError Internal
                                         (''failed to create client stream: '' @ Error err)), p2, w1)
                                  | Inr clientStream \<Rightarrow>
                                      (case forwardStream ext stream clientStream of
                                         Some err \<Rightarrow> (Err err, p2, w1)
                                       | None \<Rightarrow> (Ok (), p2, w1)))))))"

definition ParseServiceAndMethod :: "ServerStream \<Rightarrow> go_error + (string \<times> string)" where
  "ParseServiceAndMethod stream =
     (case MethodFromServerStream stream of
        None \<Rightarrow> Inl (PlainError ''failed to get method from stream'')
      | Some fullMethod0 \<Rightarrow>
          (let fullMethod = strings_TrimPrefix fullMethod0 ''/'';
               idx = strings_Index fullMethod CHR ''/''
           in if idx = -1 then Inr ([], fullMethod)
              else Inr (take (nat idx) fullMethod, drop (nat (idx + 1)) fullMethod)))"

record 'lb GRPCServer =
  proxy :: "'lb GRPCProxy option"

definition handleUnknownService ::
  "('d, 'm, 'cs) externals \<Rightarrow>
   ('lb \<Rightarrow> ServiceInstance list \<Rightarrow> (go_panic + ServiceInstance option) \<times> 'lb) \<Rightarrow>
   'lb GRPCServer \<Rightarrow> 'm world \<Rightarrow> ServerStream \<Rightarrow>
     unit result \<times> 'lb GRPCServer \<times> 'm world" where
  "handleUnknownService ext sel s w stream =
     (case ParseServiceAndMethod stream of
        Inl err \<Rightarrow> (Err (PlainError (''parse service method error: '' @ Error err)), s, w)
      | Inr (serviceName, methodName) \<Rightarrow>
          (case proxy s of
             None \<Rightarrow>
               (Err (PlainError (''proxy not configured, cannot forward request to service: ''
                  @ serviceName)), s, w)
           | Some p \<Rightarrow>
               (case ProxyStream ext sel p w serviceName methodName stream of
                  (r, p', w') \<Rightarrow> (r, s\<lparr>proxy := Some p'\<rparr>, w'))))"

section \<open>Examples\<close>

text \<open>
  The world and the externals of the examples. Messages are their JSON text; the backend
  echoes the request; a file's top-level messages have the full name \<open>package.Name\<close>.
  The results of discovery, of dialling, of the JSON decoding and of the backend call are
  the parameters of the example.
\<close>

definition example_world :: "connectivity \<Rightarrow> string world" where
  "example_world st = \<lparr>heap = [], conn_state = (\<lambda>conn. st), dialed = [], invoked = []\<rparr>"

definition example_externals ::
  "(go_error + ServiceInstance list) \<Rightarrow> (go_error + ClientConn) \<Rightarrow> go_error option \<Rightarrow>
   go_error option \<Rightarrow> (string, string, unit) externals" where
  "example_externals disc dial unm call =
     \<lparr>NewFile_Messages =
        (\<lambda>f. Some (map (\<lambda>m. (package f @ ''.'' @ msg_name m, package f @ ''.'' @ msg_name m))
                 (message_type f))),
      NewMessage = (\<lambda>d. ''{}''),
      Unmarshal = (\<lambda>json m. (unm, if unm = None then json else m)),
      Marshal = (\<lambda>m. Inr m),
      Discover = (\<lambda>name. disc),
      Dial = (\<lambda>hist target. dial),
      Invoke = (\<lambda>hist conn fullMethod req resp. (call, if call = None then req else resp)),
      NewStream = (\<lambda>conn streamName fullMethod. Inr ()),
      forwardStream = (\<lambda>stream clientStream. None)\<rparr>"

section \<open>Properties of the path parser\<close>

lemma strings_Split_nonempty: "strings_Split s sep \<noteq> []"
  by (induction s) (auto split: list.splits)

lemma path_parts_nonempty: "path_parts path \<noteq> []"
  by (simp add: path_parts_def strings_Split_nonempty)

lemma three_nonempty_components:
  assumes len: "3 \<le> length ps"
    and first: "ps ! 0 \<noteq> []"
    and last1: "ps ! (length ps - 1) \<noteq> []"
    and last2: "ps ! (length ps - 2) \<noteq> []"
  shows "3 \<le> length (filter (\<lambda>p. p \<noteq> []) ps)"
proof -
  let ?n = "length ps"
  have "{0, ?n - 2, ?n - 1} \<subseteq> {i. i < ?n \<and> ps ! i \<noteq> []}"
    using assms by auto
  then have "card {0, ?n - 2, ?n - 1} \<le> card {i. i < ?n \<and> ps ! i \<noteq> []}"
    by (intro card_mono) simp_all
  moreover have "card {0, ?n - 2, ?n - 1} = 3"
    using len by auto
  ultimately show ?thesis
    by (simp add: length_filter_conv_card)
qed

text \<open>
  C5, as the source has it. A path whose first component is not \<open>rpc\<close> is rejected; an
  accepted path has at least three non-empty components; the service and the method are
  the last two components; the tenant is the component right after \<open>rpc\<close> exactly when
  the path has more than three components in all, that is when more than two components
  follow \<open>rpc\<close>, and is empty otherwise; and \<open>/rpc/tenantA/echo.Echo/Say\<close> parses to tenant
  \<open>tenantA\<close>, service \<open>echo.Echo\<close>, method \<open>Say\<close>.
\<close>

theorem ParseHTTPRequest_components:
  "(hd (path_parts path) \<noteq> ''rpc'' \<longrightarrow> isl (ParseHTTPRequest path body)) \<and>
   (ParseHTTPRequest path body = Inr r \<longrightarrow>
      3 \<le> length (filter (\<lambda>p. p \<noteq> []) (path_parts path)) \<and>
      hd (path_parts path) = ''rpc'' \<and>
      MethodName r = last (path_parts path) \<and>
      ServiceName r = last (butlast (path_parts path)) \<and>
      Tenant r = (if 2 < length (tl (path_parts path)) then path_parts path ! 1 else [])) \<and>
   ParseHTTPRequest ''/rpc/tenantA/echo.Echo/Say'' body =
     Inr \<lparr>Tenant = ''tenantA'', ServiceName = ''echo.Echo'', MethodName = ''Say'', Body = body\<rparr>"
proof (intro conjI impI)
  assume "hd (path_parts path) \<noteq> ''rpc''"
  then show "isl (ParseHTTPRequest path body)"
    using path_parts_nonempty [of path]
    by (simp add: ParseHTTPRequest_def Let_def hd_conv_nth)
next
  assume ok: "ParseHTTPRequest path body = Inr r"
  let ?ps = "path_parts path"
  from ok have len: "3 \<le> length ?ps"
    by (auto simp: ParseHTTPRequest_def Let_def split: if_splits)
  from ok have first: "?ps ! 0 = ''rpc''"
    by (auto simp: ParseHTTPRequest_def Let_def split: if_splits)
  from ok have m: "MethodName r = ?ps ! (length ?ps - 1)" "?ps ! (length ?ps - 1) \<noteq> []"
    by (auto simp: ParseHTTPRequest_def Let_def split: if_splits)
  from ok have s: "ServiceName r = ?ps ! (length ?ps - 2)" "?ps ! (length ?ps - 2) \<noteq> []"
    by (auto simp: ParseHTTPRequest_def Let_def split: if_splits)
  from ok have t: "Tenant r = (if 3 < length ?ps then ?ps ! 1 else [])"
    by (auto simp: ParseHTTPRequest_def Let_def split: if_splits)
  from first have first_ne: "?ps ! 0 \<noteq> []" by simp
  show "3 \<le> length (filter (\<lambda>p. p \<noteq> []) ?ps)"
    by (rule three_nonempty_components [OF len first_ne m(2) s(2)])
  show "hd ?ps = ''rpc''"
    using first path_parts_nonempty [of path] by (simp add: hd_conv_nth)
  show "MethodName r = last ?ps"
    using m(1) path_parts_nonempty [of path] by (simp add: last_conv_nth)
  have ne: "butlast ?ps \<noteq> []"
    using len by (cases ?ps) auto
  have idx: "length (butlast ?ps) - 1 = length ?ps - 2"
    by simp
  have "last (butlast ?ps) = butlast ?ps ! (length (butlast ?ps) - 1)"
    using ne by (rule last_conv_nth)
  also have "\<dots> = butlast ?ps ! (length ?ps - 2)"
    by (simp only: idx)
  also have "\<dots> = ?ps ! (length ?ps - 2)"
    using len by (intro nth_butlast) simp
  finally show "ServiceName r = last (butlast ?ps)"
    using s(1) by simp
  have "(2 < length (tl ?ps)) = (3 < length ?ps)"
    by auto
  then show "Tenant r = (if 2 < length (tl ?ps) then ?ps ! 1 else [])"
    using t by simp
next
  show "ParseHTTPRequest ''/rpc/tenantA/echo.Echo/Say'' body =
     Inr \<lparr>Tenant = ''tenantA'', ServiceName = ''echo.Echo'', MethodName = ''Say'', Body = body\<rparr>"
    by (simp add: ParseHTTPRequest_def path_parts_def strings_Trim_def)
qed

theorem ParseHTTPRequest_components_witness:
  "hd (path_parts ''/api/echo.Echo/Say'') \<noteq> ''rpc'' \<and>
   isl (ParseHTTPRequest ''/api/echo.Echo/Say'' ''{}'') \<and>
   ParseHTTPRequest ''/rpc/echo.Echo/Say'' ''{}'' =
     Inr \<lparr>Tenant = [], ServiceName = ''echo.Echo'', MethodName = ''Say'', Body = ''{}''\<rparr> \<and>
   3 \<le> length (filter (\<lambda>p. p \<noteq> []) (path_parts ''/rpc/echo.Echo/Say'')) \<and>
   \<not> 2 < length (tl (path_parts ''/rpc/echo.Echo/Say''))"
proof -
  have a: "hd (path_parts ''/api/echo.Echo/Say'') \<noteq> ''rpc''"
    by (simp add: path_parts_def strings_Trim_def)
  have b: "ParseHTTPRequest ''/rpc/echo.Echo/Say'' ''{}'' =
     Inr \<lparr>Tenant = [], ServiceName = ''echo.Echo'', MethodName = ''Say'', Body = ''{}''\<rparr>"
    by (simp add: ParseHTTPRequest_def path_parts_def strings_Trim_def)
  have c: "\<not> 2 < length (tl (path_parts ''/rpc/echo.Echo/Say''))"
    by (simp add: path_parts_def strings_Trim_def)
  from ParseHTTPRequest_components [of "''/api/echo.Echo/Say''" "''{}''"] a
  have d: "isl (ParseHTTPRequest ''/api/echo.Echo/Say'' ''{}'')" by blast
  from ParseHTTPRequest_components [of "''/rpc/echo.Echo/Say''" "''{}''"] b
  have e: "3 \<le> length (filter (\<lambda>p. p \<noteq> []) (path_parts ''/rpc/echo.Echo/Say''))" by blast
  from a b c d e show ?thesis by blast
qed

text \<open>
  The spec's wording of C5 fails: in \<open>/rpc/tenantA/echo.Echo/Say\<close> exactly three components
  follow \<open>rpc\<close>, not more than three, and the parser reports the tenant \<open>tenantA\<close>.
\<close>

theorem ParseHTTPRequest_tenant_counterexample:
  "ParseHTTPRequest ''/rpc/tenantA/echo.Echo/Say'' [] =
     Inr \<lparr>Tenant = ''tenantA'', ServiceName = ''echo.Echo'', MethodName = ''Say'', Body = []\<rparr> \<and>
   path_parts ''/rpc/tenantA/echo.Echo/Say'' = [''rpc'', ''tenantA'', ''echo.Echo'', ''Say''] \<and>
   \<not> 3 < length (tl (path_parts ''/rpc/tenantA/echo.Echo/Say''))"
  by (simp add: ParseHTTPRequest_def path_parts_def strings_Trim_def)

section \<open>Properties of the round-robin balancer\<close>

lemma i64_id: "- (2 ^ 63) \<le> x \<Longrightarrow> x < 2 ^ 63 \<Longrightarrow> i64 x = x"
  by (simp add: i64_def)

lemma go_rem_nonneg: "0 \<le> a \<Longrightarrow> 0 < b \<Longrightarrow> go_rem a b = a mod b"
  by (cases "a = 0") (simp_all add: go_rem_def)

lemma residue_step:
  assumes i: "i < n"
  shows "(Suc (k + (n - i) mod n) mod n = 0) = (Suc k mod n = i)"
proof (cases "i = 0")
  case True
  then show ?thesis by simp
next
  case False
  with i have m: "(n - i) mod n = n - i" by simp
  define r where "r = (Suc k + (n - i)) mod n"
  have r: "r < n" using i by (simp add: r_def)
  have "Suc k + (n - i) + i = Suc k + n"
    using i by simp
  then have "(Suc k + (n - i) + i) mod n = Suc k mod n"
    by (simp only: mod_add_self2)
  then have eq: "(r + i) mod n = Suc k mod n"
    by (simp add: r_def mod_add_left_eq)
  have split: "(r + i) mod n = (if r + i < n then r + i else r + i - n)"
    using r i by (simp add: mod_if)
  have "(r = 0) = (Suc k mod n = i)"
  proof
    assume "r = 0"
    with eq i show "Suc k mod n = i" by simp
  next
    assume "Suc k mod n = i"
    with eq split r i show "r = 0" by (auto split: if_splits)
  qed
  then show ?thesis by (simp add: r_def m)
qed

lemma residue_count:
  assumes "i < n"
  shows "length (filter (\<lambda>j. j mod n = i) [1..<Suc k]) = (k + (n - i) mod n) div n"
proof (induction k)
  case 0
  then show ?case using assms by (cases "i = 0") auto
next
  case (Suc k)
  show ?case
    using Suc.IH residue_step [OF assms, of "k"]
    by (simp add: div_Suc)
qed

lemma residue_count_bounds:
  assumes "i < n"
  shows "length (filter (\<lambda>j. j mod n = i) [1..<Suc k]) \<in> {k div n, (k + n - 1) div n}"
proof -
  let ?c = "length (filter (\<lambda>j. j mod n = i) [1..<Suc k])"
  have c: "?c = (k + (n - i) mod n) div n" by (rule residue_count [OF assms])
  have "(n - i) mod n < n" using assms by simp
  then have "(n - i) mod n \<le> n - 1" by linarith
  have lo: "k div n \<le> ?c" unfolding c by (rule div_le_mono) simp
  have hi: "?c \<le> (k + n - 1) div n" unfolding c
    by (rule div_le_mono) (use \<open>(n - i) mod n \<le> n - 1\<close> assms in linarith)
  have "(k + n - 1) div n \<le> (k + n) div n" by (rule div_le_mono) simp
  also have "\<dots> = Suc (k div n)"
  proof -
    from assms have "0 < n" by simp
    then show ?thesis
      by (metis div_add_self2 Suc_eq_plus1 less_numeral_extra(3))
  qed
  finally have "(k + n - 1) div n \<le> Suc (k div n)" .
  with lo hi show ?thesis by auto
qed

lemma RoundRobin_Select_in_range:
  assumes "instances \<noteq> []" and "rr_counter lb + 1 < 2 ^ 63"
  shows "RoundRobin_Select lb instances =
    (Inr (Some (instances ! ((rr_counter lb + 1) mod length instances))),
     lb\<lparr>rr_counter := rr_counter lb + 1\<rparr>)"
proof -
  let ?n = "length instances"
  let ?c = "rr_counter lb + 1"
  have n: "0 < ?n" using assms(1) by simp
  have idx: "atomic_AddUint64 (rr_counter lb) 1 = ?c"
    using assms(2) by (simp add: atomic_AddUint64_def u64_def)
  have conv: "i64 (int ?c) = int ?c"
    using assms(2) by (intro i64_id) (simp_all add: of_nat_less_numeral_power_cancel_iff [symmetric] del: of_nat_less_numeral_power_cancel_iff of_nat_add)
  have rem: "go_rem (int ?c) (int ?n) = int (?c mod ?n)"
    using n by (simp add: go_rem_nonneg zmod_int del: of_nat_add)
  have "?c mod ?n < ?n" using n by simp
  then have get: "go_index instances (int (?c mod ?n)) = Inr (instances ! (?c mod ?n))"
    by (simp add: go_index_def)
  show ?thesis
    using assms(1) by (simp only: RoundRobin_Select_def Let_def idx conv rem get) simp
qed

lemma rr_selections_fresh:
  assumes "instances \<noteq> []" and "k < 2 ^ 63"
  shows "rr_selections NewRoundRobinLoadBalancer instances k =
    Inr (map (\<lambda>j. instances ! (j mod length instances)) [1..<Suc k], \<lparr>rr_counter = k\<rparr>)"
  using assms(2)
proof (induction k)
  case 0
  show ?case by (simp add: NewRoundRobinLoadBalancer_def)
next
  case (Suc k)
  then have IH: "rr_selections NewRoundRobinLoadBalancer instances k =
    Inr (map (\<lambda>j. instances ! (j mod length instances)) [1..<Suc k], \<lparr>rr_counter = k\<rparr>)"
    by simp
  have "rr_counter \<lparr>rr_counter = k\<rparr> + 1 < 2 ^ 63" using Suc.prems by simp
  from RoundRobin_Select_in_range [OF assms(1) this]
  have sel: "RoundRobin_Select \<lparr>rr_counter = k\<rparr> instances =
    (Inr (Some (instances ! (Suc k mod length instances))), \<lparr>rr_counter = Suc k\<rparr>)"
    by simp
  show ?case by (simp add: IH sel)
qed

lemma count_list_map_nth:
  assumes "distinct xs" and "i < length xs" and "xs \<noteq> []"
  shows "count_list (map (\<lambda>j. xs ! (j mod length xs)) js) (xs ! i) =
         length (filter (\<lambda>j. j mod length xs = i) js)"
proof (induction js)
  case Nil
  show ?case by simp
next
  case (Cons j js)
  have "j mod length xs < length xs" using assms(3) by simp
  then have "(xs ! (j mod length xs) = xs ! i) = (j mod length xs = i)"
    using assms(1,2) by (simp add: nth_eq_iff_index_eq)
  with Cons show ?case by simp
qed

text \<open>
  C6, within the range of the counter. On a fresh round-robin balancer the first
  \<open>Select\<close> over a non-empty list of \<open>n\<close> instances returns the instance at index
  \<open>1 mod n\<close>; and for every \<open>k\<close> with \<open>1 \<le> k < 2^63\<close>, the \<open>k\<close> sequential selections
  over a fixed list of \<open>n \<ge> 1\<close> distinct instances all return, and each instance has been
  selected \<open>\<lfloor>k/n\<rfloor>\<close> or \<open>\<lceil>k/n\<rceil>\<close> times.
\<close>

theorem RoundRobin_first_and_fair:
  assumes "instances \<noteq> []" and "distinct instances" and "1 \<le> k" and "k < 2 ^ 63"
  shows "fst (RoundRobin_Select NewRoundRobinLoadBalancer instances) =
           Inr (Some (instances ! (1 mod length instances))) \<and>
         (\<exists>sel lb. rr_selections NewRoundRobinLoadBalancer instances k = Inr (sel, lb) \<and>
            length sel = k \<and>
            (\<forall>x \<in> set instances.
               count_list sel x = k div length instances \<or>
               count_list sel x = (k + length instances - 1) div length instances))"
proof
  have "rr_counter NewRoundRobinLoadBalancer + 1 < 2 ^ 63"
    by (simp add: NewRoundRobinLoadBalancer_def)
  from RoundRobin_Select_in_range [OF assms(1) this]
  show "fst (RoundRobin_Select NewRoundRobinLoadBalancer instances) =
           Inr (Some (instances ! (1 mod length instances)))"
    by (simp add: NewRoundRobinLoadBalancer_def)
next
  let ?n = "length instances"
  let ?sel = "map (\<lambda>j. instances ! (j mod ?n)) [1..<Suc k]"
  have run: "rr_selections NewRoundRobinLoadBalancer instances k = Inr (?sel, \<lparr>rr_counter = k\<rparr>)"
    by (rule rr_selections_fresh [OF assms(1,4)])
  have fair: "count_list ?sel x = k div ?n \<or> count_list ?sel x = (k + ?n - 1) div ?n"
    if "x \<in> set instances" for x
  proof -
    from that obtain i where i: "i < ?n" "x = instances ! i"
      by (auto simp: in_set_conv_nth)
    have "count_list ?sel x = length (filter (\<lambda>j. j mod ?n = i) [1..<Suc k])"
      unfolding i(2) by (rule count_list_map_nth [OF assms(2) i(1) assms(1)])
    with residue_count_bounds [OF i(1), of k] show ?thesis by auto
  qed
  have "length ?sel = k" by simp
  with run fair show "\<exists>sel lb. rr_selections NewRoundRobinLoadBalancer instances k = Inr (sel, lb) \<and>
            length sel = k \<and>
            (\<forall>x \<in> set instances.
               count_list sel x = k div ?n \<or> count_list sel x = (k + ?n - 1) div ?n)"
    by blast
qed

theorem RoundRobin_first_and_fair_witness:
  "distinct [example_instance ''a'' None, example_instance ''b'' None] \<and>
   fst (RoundRobin_Select NewRoundRobinLoadBalancer
          [example_instance ''a'' None, example_instance ''b'' None]) =
     Inr (Some (example_instance ''b'' None)) \<and>
   (\<exists>sel lb. rr_selections NewRoundRobinLoadBalancer
        [example_instance ''a'' None, example_instance ''b'' None] 3 = Inr (sel, lb) \<and>
      length sel = 3 \<and>
      (\<forall>x \<in> set [example_instance ''a'' None, example_instance ''b'' None].
         count_list sel x = 1 \<or> count_list sel x = 2))"
proof -
  let ?xs = "[example_instance ''a'' None, example_instance ''b'' None]"
  have d: "distinct ?xs" by (simp add: example_instance_def)
  have ne: "?xs \<noteq> []" by simp
  have k: "(1::nat) \<le> 3" "(3::nat) < 2 ^ 63" by simp_all
  have e: "length ?xs = 2" by simp
  have a: "(3::nat) div 2 = 1" "((3::nat) + 2 - 1) div 2 = 2" "(1::nat) mod 2 = 1" by simp_all
  have b: "?xs ! 1 = example_instance ''b'' None" by simp
  note fair = RoundRobin_first_and_fair [OF ne d k, unfolded e a b]
  from fair d show ?thesis by blast
qed

text \<open>
  C6 as stated, for every \<open>k\<close>, fails at \<open>k = 2^63\<close> over three instances: the counter
  reaches \<open>2^63\<close>, its conversion to \<open>int\<close> is \<open>-2^63\<close>, the remainder by 3 is \<open>-2\<close>, and
  the slice access panics.
\<close>

theorem RoundRobin_overflow_counterexample:
  "rr_selections NewRoundRobinLoadBalancer
     [example_instance ''a'' None, example_instance ''b'' None, example_instance ''c'' None]
     (2 ^ 63 - 1) =
     Inr (map (\<lambda>j. [example_instance ''a'' None, example_instance ''b'' None,
                     example_instance ''c'' None] ! (j mod 3)) [1..<Suc (2 ^ 63 - 1)],
          \<lparr>rr_counter = 2 ^ 63 - 1\<rparr>) \<and>
   RoundRobin_Select \<lparr>rr_counter = 2 ^ 63 - 1\<rparr>
     [example_instance ''a'' None, example_instance ''b'' None, example_instance ''c'' None] =
     (Inl IndexOutOfRange, \<lparr>rr_counter = 2 ^ 63\<rparr>) \<and>
   rr_selections NewRoundRobinLoadBalancer
     [example_instance ''a'' None, example_instance ''b'' None, example_instance ''c'' None]
     (2 ^ 63) = Inl IndexOutOfRange"
proof -
  let ?xs = "[example_instance ''a'' None, example_instance ''b'' None, example_instance ''c'' None]"
  have k: "(2::nat) ^ 63 = Suc (2 ^ 63 - 1)" by simp
  have run: "rr_selections NewRoundRobinLoadBalancer ?xs (2 ^ 63 - 1) =
    Inr (map (\<lambda>j. ?xs ! (j mod length ?xs)) [1..<Suc (2 ^ 63 - 1)], \<lparr>rr_counter = 2 ^ 63 - 1\<rparr>)"
    by (rule rr_selections_fresh) simp_all
  have sel: "RoundRobin_Select \<lparr>rr_counter = 2 ^ 63 - 1\<rparr> ?xs =
    (Inl IndexOutOfRange, \<lparr>rr_counter = 2 ^ 63\<rparr>)"
    by (simp add: RoundRobin_Select_def atomic_AddUint64_def u64_def i64_def go_rem_def go_index_def)
  have "rr_selections NewRoundRobinLoadBalancer ?xs (2 ^ 63) = Inl IndexOutOfRange"
    by (subst k) (simp only: rr_selections.simps run sel sum.case prod.case)
  moreover have "length ?xs = 3" by simp
  ultimately show ?thesis using run sel by (simp only:)
qed


section \<open>Properties of the weighted balancer\<close>

lemma getWeight_pos: "1 \<le> getWeight Sscanf_d x"
  by (simp add: getWeight_def split: option.splits)

lemma i64_range: "- (2 ^ 63) \<le> i64 x \<and> i64 x < 2 ^ 63"
proof -
  have "0 \<le> (x + 2 ^ 63) mod 2 ^ 64" by simp
  moreover have "(x + 2 ^ 63) mod 2 ^ 64 < (2 ^ 64 :: int)" by simp
  moreover have "(2::int) ^ 64 = 2 ^ 63 + 2 ^ 63" by simp
  ultimately show ?thesis unfolding i64_def by linarith
qed

lemma sum_list_weights_nonneg:
  assumes "\<forall>x \<in> set xs. 1 \<le> gw x"
  shows "int (length xs) \<le> sum_list (map gw xs)"
  using assms by (induction xs) (auto simp: add_mono)

lemma totalWeight_loop_exact:
  assumes "\<forall>x \<in> set xs. 1 \<le> gw x" and "0 \<le> t" and "t + sum_list (map gw xs) < 2 ^ 63"
  shows "totalWeight_loop gw t xs = t + sum_list (map gw xs)"
  using assms
proof (induction xs arbitrary: t)
  case Nil
  show ?case by simp
next
  case (Cons x xs)
  have rest: "0 \<le> sum_list (map gw xs)"
    using sum_list_weights_nonneg [of xs gw] Cons.prems(1) by simp
  have x: "1 \<le> gw x" using Cons.prems(1) by simp
  have "i64 (t + gw x) = t + gw x"
    using Cons.prems(2,3) rest x by (intro i64_id) simp_all
  moreover have "totalWeight_loop gw (t + gw x) xs = (t + gw x) + sum_list (map gw xs)"
    using Cons.prems x by (intro Cons.IH) (simp_all add: add.assoc)
  ultimately show ?case by (simp add: add.assoc)
qed

lemma weighted_walk_in_set: "weighted_walk gw offset cw xs = Some x \<Longrightarrow> x \<in> set xs"
  by (induction xs arbitrary: cw) (auto simp: Let_def split: if_splits)

lemma weighted_walk_index:
  assumes "\<forall>x \<in> set xs. 1 \<le> gw x" and "0 \<le> cw" and "cw \<le> offset"
    and "cw + sum_list (map gw xs) < 2 ^ 63" and "offset < cw + sum_list (map gw xs)"
  shows "\<exists>i < length xs. weighted_walk gw offset cw xs = Some (xs ! i) \<and>
           cw + sum_list (map gw (take i xs)) \<le> offset \<and>
           offset < cw + sum_list (map gw (take (Suc i) xs))"
  using assms
proof (induction xs arbitrary: cw)
  case Nil
  then show ?case by simp
next
  case (Cons x xs)
  have rest: "0 \<le> sum_list (map gw xs)"
    using sum_list_weights_nonneg [of xs gw] Cons.prems(1) by simp
  have x: "1 \<le> gw x" using Cons.prems(1) by simp
  have wrap: "i64 (cw + gw x) = cw + gw x"
    using Cons.prems(2,4) rest x by (intro i64_id) simp_all
  show ?case
  proof (cases "offset < cw + gw x")
    case True
    then have "weighted_walk gw offset cw (x # xs) = Some ((x # xs) ! 0)"
      by (simp add: wrap)
    with True Cons.prems(3) show ?thesis by (intro exI [of _ 0]) simp
  next
    case False
    have "\<exists>i < length xs. weighted_walk gw offset (cw + gw x) xs = Some (xs ! i) \<and>
           (cw + gw x) + sum_list (map gw (take i xs)) \<le> offset \<and>
           offset < (cw + gw x) + sum_list (map gw (take (Suc i) xs))"
      using Cons.prems x False by (intro Cons.IH) (simp_all add: add.assoc)
    then obtain i where i: "i < length xs"
      "weighted_walk gw offset (cw + gw x) xs = Some (xs ! i)"
      "(cw + gw x) + sum_list (map gw (take i xs)) \<le> offset"
      "offset < (cw + gw x) + sum_list (map gw (take (Suc i) xs))"
      by blast
    from False i show ?thesis
      by (intro exI [of _ "Suc i"]) (simp add: wrap add.assoc)
  qed
qed

lemma weighted_walk_card:
  assumes "\<forall>x \<in> set xs. 1 \<le> gw x" and "distinct xs" and "x \<in> set xs"
    and "0 \<le> cw" and "cw + sum_list (map gw xs) < 2 ^ 63"
  shows "card {z \<in> {cw..<cw + sum_list (map gw xs)}. weighted_walk gw z cw xs = Some x} =
         nat (gw x)"
  using assms
proof (induction xs arbitrary: cw)
  case Nil
  then show ?case by simp
next
  case (Cons y ys)
  let ?S = "sum_list (map gw ys)"
  have rest: "0 \<le> ?S"
    using sum_list_weights_nonneg [of ys gw] Cons.prems(1) by simp
  have y: "1 \<le> gw y" using Cons.prems(1) by simp
  have wrap: "i64 (cw + gw y) = cw + gw y"
    using Cons.prems(4,5) rest y by (intro i64_id) simp_all
  have step: "weighted_walk gw z cw (y # ys) =
      (if z < cw + gw y then Some y else weighted_walk gw z (cw + gw y) ys)" for z
    by (simp add: wrap)
  show ?case
  proof (cases "x = y")
    case True
    have "y \<notin> set ys" using Cons.prems(2) by simp
    then have no: "weighted_walk gw z (cw + gw y) ys \<noteq> Some y" for z
      using weighted_walk_in_set by fastforce
    have "{z \<in> {cw..<cw + sum_list (map gw (y # ys))}. weighted_walk gw z cw (y # ys) = Some x} =
          {cw..<cw + gw y}"
      using rest no by (auto simp: step True simp del: weighted_walk.simps)
    then show ?thesis by (simp add: True)
  next
    case False
    then have xin: "x \<in> set ys" using Cons.prems(3) by simp
    have "{z \<in> {cw..<cw + sum_list (map gw (y # ys))}. weighted_walk gw z cw (y # ys) = Some x} =
          {z \<in> {cw + gw y..<(cw + gw y) + ?S}. weighted_walk gw z (cw + gw y) ys = Some x}"
      using y False by (auto simp: step simp del: weighted_walk.simps)
    also have "card \<dots> = nat (gw x)"
      using Cons.prems y xin by (intro Cons.IH) (simp_all add: add.assoc)
    finally show ?thesis .
  qed
qed

lemma mod_window_inj: "inj_on (\<lambda>j::nat. j mod W) {a..<a + W}"
proof (rule inj_onI)
  fix j j' assume j: "j \<in> {a..<a + W}" and j': "j' \<in> {a..<a + W}"
    and eq: "j mod W = j' mod W"
  have aux: "u = v" if "u \<le> v" "u mod W = v mod W" "v - u < W" for u v :: nat
  proof -
    from that(2) have "v mod W = u mod W" by simp
    with that(1) have "W dvd v - u"
      by (simp add: mod_eq_dvd_iff_nat)
    with that(3) have "v - u = 0"
      by (meson dvd_imp_le not_less zero_less_iff_neq_zero)
    with that(1) show ?thesis by simp
  qed
  show "j = j'"
  proof (cases "j \<le> j'")
    case True
    with j j' eq show ?thesis by (intro aux [of j j']) auto
  next
    case False
    with j j' eq have "j' = j" by (intro aux [of j' j]) auto
    then show ?thesis by simp
  qed
qed

lemma mod_window_image:
  assumes "0 < W"
  shows "(\<lambda>j::nat. j mod W) ` {a..<a + W} = {0..<W}"
proof (rule card_subset_eq)
  show "finite {0..<W}" by simp
  show "(\<lambda>j. j mod W) ` {a..<a + W} \<subseteq> {0..<W}" using assms by auto
  have "card ((\<lambda>j. j mod W) ` {a..<a + W}) = card {a..<a + W}"
    by (rule card_image) (rule mod_window_inj)
  then show "card ((\<lambda>j. j mod W) ` {a..<a + W}) = card {0..<W}" by simp
qed

lemma count_window:
  assumes "0 < (W::nat)"
  shows "card {j \<in> {a..<a + W}. P (j mod W)} = card {r \<in> {0..<W}. P r}"
proof -
  have "{r \<in> {0..<W}. P r} = (\<lambda>j. j mod W) ` {j \<in> {a..<a + W}. P (j mod W)}"
  proof (rule set_eqI)
    fix r
    show "(r \<in> {r \<in> {0..<W}. P r}) = (r \<in> (\<lambda>j. j mod W) ` {j \<in> {a..<a + W}. P (j mod W)})"
    proof
      assume r: "r \<in> {r \<in> {0..<W}. P r}"
      then have "r \<in> (\<lambda>j. j mod W) ` {a..<a + W}"
        using mod_window_image [OF assms, of a] by simp
      then obtain j where "j \<in> {a..<a + W}" "r = j mod W" by blast
      with r show "r \<in> (\<lambda>j. j mod W) ` {j \<in> {a..<a + W}. P (j mod W)}" by blast
    next
      assume "r \<in> (\<lambda>j. j mod W) ` {j \<in> {a..<a + W}. P (j mod W)}"
      then obtain j where "r = j mod W" "P (j mod W)" by blast
      moreover have "j mod W < W" using assms by simp
      ultimately show "r \<in> {r \<in> {0..<W}. P r}" by simp
    qed
  qed
  moreover have "inj_on (\<lambda>j. j mod W) {j \<in> {a..<a + W}. P (j mod W)}"
    by (rule inj_on_subset [OF mod_window_inj]) auto
  ultimately show ?thesis by (simp add: card_image)
qed

lemma card_int_offsets:
  "card {r \<in> {0..<W}. Q (int r)} = card {z \<in> {0..<int W}. Q z}"
proof -
  have "{z \<in> {0..<int W}. Q z} = int ` {r \<in> {0..<W}. Q (int r)}"
  proof (rule set_eqI)
    fix z
    show "(z \<in> {z \<in> {0..<int W}. Q z}) = (z \<in> int ` {r \<in> {0..<W}. Q (int r)})"
    proof
      assume "z \<in> {z \<in> {0..<int W}. Q z}"
      then have "nat z \<in> {r \<in> {0..<W}. Q (int r)}" "z = int (nat z)" by auto
      then show "z \<in> int ` {r \<in> {0..<W}. Q (int r)}" by (rule rev_image_eqI)
    next
      assume "z \<in> int ` {r \<in> {0..<W}. Q (int r)}"
      then show "z \<in> {z \<in> {0..<int W}. Q z}" by auto
    qed
  qed
  then show ?thesis by (simp add: card_image)
qed

lemma Weighted_Select_in_range:
  assumes ne: "instances \<noteq> []"
    and W: "sum_list (map (getWeight Sscanf_d) instances) < 2 ^ 63"
    and c: "wl_counter lb + 1 < 2 ^ 63"
  shows "\<exists>i < length instances.
           Weighted_Select Sscanf_d lb instances =
             (Inr (Some (instances ! i)), WeightedWalk, lb\<lparr>wl_counter := wl_counter lb + 1\<rparr>) \<and>
           weighted_walk (getWeight Sscanf_d)
             (int (wl_counter lb + 1) mod sum_list (map (getWeight Sscanf_d) instances)) 0 instances =
             Some (instances ! i) \<and>
           sum_list (map (getWeight Sscanf_d) (take i instances))
             \<le> int (wl_counter lb + 1) mod sum_list (map (getWeight Sscanf_d) instances) \<and>
           int (wl_counter lb + 1) mod sum_list (map (getWeight Sscanf_d) instances)
             < sum_list (map (getWeight Sscanf_d) (take (Suc i) instances))"
proof -
  let ?gw = "getWeight Sscanf_d"
  let ?W = "sum_list (map ?gw instances)"
  let ?c = "wl_counter lb + 1"
  let ?off = "int ?c mod ?W"
  have pos: "\<forall>x \<in> set instances. 1 \<le> ?gw x" by (simp add: getWeight_pos)
  have "int (length instances) \<le> ?W" by (rule sum_list_weights_nonneg [OF pos])
  moreover have "0 < length instances" using ne by simp
  ultimately have Wpos: "0 < ?W" by linarith
  have total: "totalWeight_loop ?gw 0 instances = ?W"
    using totalWeight_loop_exact [OF pos, of 0] W by simp
  have idx: "atomic_AddUint64 (wl_counter lb) 1 = ?c"
    using c by (simp add: atomic_AddUint64_def u64_def)
  have conv: "i64 (int ?c) = int ?c"
    using c by (intro i64_id) (simp_all add: of_nat_less_numeral_power_cancel_iff [symmetric] del: of_nat_less_numeral_power_cancel_iff of_nat_add)
  have rem: "go_rem (int ?c) ?W = ?off"
    using Wpos by (simp add: go_rem_nonneg del: of_nat_add)
  have off: "0 \<le> ?off" "?off < ?W" using Wpos by simp_all
  from weighted_walk_index [OF pos, of 0 ?off] off W
  obtain i where i: "i < length instances"
    "weighted_walk ?gw ?off 0 instances = Some (instances ! i)"
    "sum_list (map ?gw (take i instances)) \<le> ?off"
    "?off < sum_list (map ?gw (take (Suc i) instances))"
    by auto
  have "Weighted_Select Sscanf_d lb instances =
      (Inr (Some (instances ! i)), WeightedWalk, lb\<lparr>wl_counter := ?c\<rparr>)"
    using ne Wpos by (simp only: Weighted_Select_def Let_def total idx conv rem i(2)) simp
  with i show ?thesis by blast
qed

lemma wl_selections_run:
  assumes ne: "instances \<noteq> []"
    and W: "sum_list (map (getWeight Sscanf_d) instances) < 2 ^ 63"
    and c: "wl_counter lb + k < 2 ^ 63"
  shows "wl_selections Sscanf_d lb instances k =
    Inr (map (\<lambda>j. the (weighted_walk (getWeight Sscanf_d)
                 (int j mod sum_list (map (getWeight Sscanf_d) instances)) 0 instances))
           [wl_counter lb + 1..<wl_counter lb + 1 + k],
         lb\<lparr>wl_counter := wl_counter lb + k\<rparr>)"
  using c
proof (induction k)
  case 0
  show ?case by simp
next
  case (Suc k)
  let ?lb = "lb\<lparr>wl_counter := wl_counter lb + k\<rparr>"
  have IH: "wl_selections Sscanf_d lb instances k =
    Inr (map (\<lambda>j. the (weighted_walk (getWeight Sscanf_d)
                 (int j mod sum_list (map (getWeight Sscanf_d) instances)) 0 instances))
           [wl_counter lb + 1..<wl_counter lb + 1 + k], ?lb)"
    using Suc by simp
  have "wl_counter ?lb + 1 < 2 ^ 63" using Suc.prems by simp
  from Weighted_Select_in_range [OF ne W this]
  obtain i where i: "Weighted_Select Sscanf_d ?lb instances =
      (Inr (Some (instances ! i)), WeightedWalk, ?lb\<lparr>wl_counter := wl_counter ?lb + 1\<rparr>)"
    "weighted_walk (getWeight Sscanf_d)
       (int (wl_counter ?lb + 1) mod sum_list (map (getWeight Sscanf_d) instances)) 0 instances =
     Some (instances ! i)"
    by blast
  have last: "the (weighted_walk (getWeight Sscanf_d)
       (int (wl_counter lb + 1 + k) mod sum_list (map (getWeight Sscanf_d) instances)) 0 instances) =
     instances ! i"
    using i(2) by (simp add: add.commute add.left_commute)
  have upt: "[wl_counter lb + 1..<wl_counter lb + 1 + Suc k] =
             [wl_counter lb + 1..<wl_counter lb + 1 + k] @ [wl_counter lb + 1 + k]"
    by simp
  show ?case
    by (simp only: wl_selections.simps IH i(1) sum.case prod.case option.case upt map_append
          list.map last) simp
qed

lemma count_list_map:
  "count_list (map f js) x = length (filter (\<lambda>j. f j = x) js)"
  by (induction js) simp_all

lemma getWeight_cases:
  "(Metadata x = None \<longrightarrow> getWeight Sscanf_d x = 1) \<and>
   (\<forall>md. Metadata x = Some md \<and> md ''weight'' = None \<longrightarrow> getWeight Sscanf_d x = 1) \<and>
   (\<forall>md s. Metadata x = Some md \<and> md ''weight'' = Some s \<and> Sscanf_d s = None \<longrightarrow>
      getWeight Sscanf_d x = 1) \<and>
   (\<forall>md s w. Metadata x = Some md \<and> md ''weight'' = Some s \<and> Sscanf_d s = Some w \<and>
      - (2 ^ 63) \<le> w \<and> w < 2 ^ 63 \<longrightarrow>
      getWeight Sscanf_d x = (if 0 < w then w else 1))"
  by (auto simp: getWeight_def i64_id)

lemma prefix_sum_mono:
  assumes "\<forall>x \<in> set xs. (1::int) \<le> gw x" and "j \<le> i"
  shows "sum_list (map gw (take j xs)) \<le> sum_list (map gw (take i xs))"
proof -
  have "take i xs = take j xs @ take (i - j) (drop j xs)"
    using assms(2) take_add [of j "i - j" xs] by simp
  moreover have "0 \<le> sum_list (map gw (take (i - j) (drop j xs)))"
  proof (rule sum_list_nonneg)
    fix w assume "w \<in> set (map gw (take (i - j) (drop j xs)))"
    then obtain x where "x \<in> set (take (i - j) (drop j xs))" "w = gw x" by auto
    moreover from this have "x \<in> set xs" by (meson in_set_dropD in_set_takeD)
    ultimately show "0 \<le> w" using assms(1) by fastforce
  qed
  ultimately show ?thesis by simp
qed

lemma weighted_count:
  assumes ne: "instances \<noteq> []" and d: "distinct instances"
    and W: "sum_list (map (getWeight Sscanf_d) instances) < 2 ^ 63"
    and x: "x \<in> set instances"
  shows "int (count_list
           (map (\<lambda>j. the (weighted_walk (getWeight Sscanf_d)
                   (int j mod sum_list (map (getWeight Sscanf_d) instances)) 0 instances))
              [a..<a + nat (sum_list (map (getWeight Sscanf_d) instances))]) x) =
         getWeight Sscanf_d x"
proof -
  let ?gw = "getWeight Sscanf_d"
  let ?W = "sum_list (map ?gw instances)"
  let ?n = "nat ?W"
  let ?g = "\<lambda>r. the (weighted_walk ?gw (int r) 0 instances)"
  have pos: "\<forall>x \<in> set instances. 1 \<le> ?gw x" by (simp add: getWeight_pos)
  have "int (length instances) \<le> ?W" by (rule sum_list_weights_nonneg [OF pos])
  moreover have "0 < length instances" using ne by simp
  ultimately have Wpos: "0 < ?W" by linarith
  then have npos: "0 < ?n" and n: "int ?n = ?W" by simp_all
  have f: "the (weighted_walk ?gw (int j mod ?W) 0 instances) = ?g (j mod ?n)" for j
  proof -
    have "int (j mod ?n) = int j mod int ?n" by (rule zmod_int)
    then show ?thesis by (simp only: n)
  qed
  have found: "(?g r = x) = (weighted_walk ?gw (int r) 0 instances = Some x)" if "r < ?n" for r
  proof -
    have "int r < 0 + ?W" using that n by linarith
    with weighted_walk_index [OF pos, of 0 "int r"] W
    obtain i where "weighted_walk ?gw (int r) 0 instances = Some (instances ! i)" by auto
    then show ?thesis by auto
  qed
  have "count_list (map (\<lambda>j. the (weighted_walk ?gw (int j mod ?W) 0 instances)) [a..<a + ?n]) x =
        length (filter (\<lambda>j. ?g (j mod ?n) = x) [a..<a + ?n])"
    by (simp only: count_list_map f)
  also have "\<dots> = card {j \<in> {a..<a + ?n}. ?g (j mod ?n) = x}"
  proof -
    have "{j. ?g (j mod ?n) = x} \<inter> set [a..<a + ?n] = {j \<in> {a..<a + ?n}. ?g (j mod ?n) = x}"
      by auto
    then show ?thesis by (simp add: distinct_length_filter)
  qed
  also have "\<dots> = card {r \<in> {0..<?n}. ?g r = x}"
    by (rule count_window [OF npos])
  also have "{r \<in> {0..<?n}. ?g r = x} =
             {r \<in> {0..<?n}. weighted_walk ?gw (int r) 0 instances = Some x}"
    using found by auto
  also have "card \<dots> = card {z \<in> {0..<int ?n}. weighted_walk ?gw z 0 instances = Some x}"
    by (rule card_int_offsets)
  also have "\<dots> = card {z \<in> {0..<0 + ?W}. weighted_walk ?gw z 0 instances = Some x}"
    by (simp only: n add_0)
  also have "\<dots> = nat (?gw x)"
    using W by (intro weighted_walk_card [OF pos d x]) simp_all
  finally show ?thesis
    using getWeight_pos [of Sscanf_d x] by simp
qed

text \<open>
  C7, within the range of Go's \<open>int\<close>. \<open>getWeight\<close> reads \<open>metadata["weight"]\<close> as a
  positive integer and defaults to 1 when it is missing or does not scan. Over a fixed
  non-empty list of distinct instances whose weights sum to \<open>W\<close>, with the counter \<open>c\<close> of
  the balancer such that \<open>c + W < 2^63\<close>: a \<open>Select\<close> advances the counter, takes
  \<open>offset = counter mod W\<close> and returns the first instance whose cumulative weight strictly
  exceeds the offset; and in the next \<open>W\<close> consecutive selections each instance \<open>i\<close> is
  chosen exactly \<open>w\<^sub>i\<close> times.
\<close>

theorem Weighted_Select_distribution:
  assumes ne: "instances \<noteq> []" and d: "distinct instances"
    and W: "W = sum_list (map (getWeight Sscanf_d) instances)"
    and c: "int (wl_counter lb) + W < 2 ^ 63"
    and off: "offset = int (wl_counter lb + 1) mod W"
  shows "(\<forall>x md s w. Metadata x = Some md \<and> md ''weight'' = Some s \<and> Sscanf_d s = Some w \<and>
            0 < w \<and> w < 2 ^ 63 \<longrightarrow> getWeight Sscanf_d x = w) \<and>
         (\<forall>x. (Metadata x = None \<or> (\<exists>md. Metadata x = Some md \<and>
            (md ''weight'' = None \<or> (\<exists>s. md ''weight'' = Some s \<and> Sscanf_d s = None)))) \<longrightarrow>
            getWeight Sscanf_d x = 1) \<and>
         (\<exists>i < length instances.
            Weighted_Select Sscanf_d lb instances =
              (Inr (Some (instances ! i)), WeightedWalk, lb\<lparr>wl_counter := wl_counter lb + 1\<rparr>) \<and>
            offset < sum_list (map (getWeight Sscanf_d) (take (Suc i) instances)) \<and>
            (\<forall>j < i. \<not> offset < sum_list (map (getWeight Sscanf_d) (take (Suc j) instances)))) \<and>
         (\<exists>sel lb'. wl_selections Sscanf_d lb instances (nat W) = Inr (sel, lb') \<and>
            length sel = nat W \<and>
            (\<forall>x \<in> set instances. int (count_list sel x) = getWeight Sscanf_d x))"
proof (intro conjI)
  let ?gw = "getWeight Sscanf_d"
  have pos: "\<forall>x \<in> set instances. 1 \<le> ?gw x" by (simp add: getWeight_pos)
  have "int (length instances) \<le> W" unfolding W by (rule sum_list_weights_nonneg [OF pos])
  moreover have "0 < length instances" using ne by simp
  ultimately have Wpos: "0 < W" by linarith
  have Wlt: "sum_list (map ?gw instances) < 2 ^ 63" using c W by linarith
  show "\<forall>x md s w. Metadata x = Some md \<and> md ''weight'' = Some s \<and> Sscanf_d s = Some w \<and>
            0 < w \<and> w < 2 ^ 63 \<longrightarrow> ?gw x = w"
    using getWeight_cases [of _ Sscanf_d] by (auto simp: getWeight_def i64_id)
  show "\<forall>x. (Metadata x = None \<or> (\<exists>md. Metadata x = Some md \<and>
            (md ''weight'' = None \<or> (\<exists>s. md ''weight'' = Some s \<and> Sscanf_d s = None)))) \<longrightarrow>
            ?gw x = 1"
    by (auto simp: getWeight_def)
  have c1: "wl_counter lb + 1 < 2 ^ 63"
  proof -
    have "int (wl_counter lb + 1) < 2 ^ 63" using c Wpos by simp
    then show ?thesis
      by (simp only: of_nat_less_numeral_power_cancel_iff)
  qed
  from Weighted_Select_in_range [OF ne Wlt c1]
  obtain i where i: "i < length instances"
    "Weighted_Select Sscanf_d lb instances =
       (Inr (Some (instances ! i)), WeightedWalk, lb\<lparr>wl_counter := wl_counter lb + 1\<rparr>)"
    "sum_list (map ?gw (take i instances)) \<le> offset"
    "offset < sum_list (map ?gw (take (Suc i) instances))"
    unfolding off W by blast
  have "\<not> offset < sum_list (map ?gw (take (Suc j) instances))" if "j < i" for j
  proof -
    from that have "Suc j \<le> i" by simp
    from prefix_sum_mono [OF pos this] i(3) show ?thesis by linarith
  qed
  with i show "\<exists>i < length instances.
            Weighted_Select Sscanf_d lb instances =
              (Inr (Some (instances ! i)), WeightedWalk, lb\<lparr>wl_counter := wl_counter lb + 1\<rparr>) \<and>
            offset < sum_list (map ?gw (take (Suc i) instances)) \<and>
            (\<forall>j < i. \<not> offset < sum_list (map ?gw (take (Suc j) instances)))"
    by blast
  let ?sel = "map (\<lambda>j. the (weighted_walk ?gw (int j mod sum_list (map ?gw instances)) 0 instances))
                [wl_counter lb + 1..<wl_counter lb + 1 + nat W]"
  have ck: "wl_counter lb + nat W < 2 ^ 63"
  proof -
    have "int (wl_counter lb + nat W) < 2 ^ 63" using c Wpos by simp
    then show ?thesis
      by (simp only: of_nat_less_numeral_power_cancel_iff)
  qed
  have run: "wl_selections Sscanf_d lb instances (nat W) =
      Inr (?sel, lb\<lparr>wl_counter := wl_counter lb + nat W\<rparr>)"
    by (rule wl_selections_run [OF ne Wlt ck])
  have "int (count_list ?sel x) = ?gw x" if "x \<in> set instances" for x
    using weighted_count [OF ne d Wlt that, of "wl_counter lb + 1"] by (simp only: W)
  moreover have "length ?sel = nat W" by simp
  ultimately show "\<exists>sel lb'. wl_selections Sscanf_d lb instances (nat W) = Inr (sel, lb') \<and>
            length sel = nat W \<and>
            (\<forall>x \<in> set instances. int (count_list sel x) = ?gw x)"
    using run by blast
qed

theorem Weighted_Select_distribution_witness:
  "distinct [example_instance ''a'' (Some ''1''), example_instance ''b'' (Some ''3'')] \<and>
   getWeight scan_digits (example_instance ''a'' (Some ''1'')) = 1 \<and>
   getWeight scan_digits (example_instance ''b'' (Some ''3'')) = 3 \<and>
   (\<exists>sel lb'. wl_selections scan_digits NewWeightedLoadBalancer
        [example_instance ''a'' (Some ''1''), example_instance ''b'' (Some ''3'')] 4 = Inr (sel, lb') \<and>
      length sel = 4 \<and>
      count_list sel (example_instance ''a'' (Some ''1'')) = 1 \<and>
      count_list sel (example_instance ''b'' (Some ''3'')) = 3)"
proof -
  let ?a = "example_instance ''a'' (Some ''1'')"
  let ?b = "example_instance ''b'' (Some ''3'')"
  have d: "distinct [?a, ?b]" by (simp add: example_instance_def)
  have ne: "[?a, ?b] \<noteq> []" by simp
  have gwa: "getWeight scan_digits ?a = 1"
    by (simp add: getWeight_def example_instance_def scan_digits_def i64_def)
  have gwb: "getWeight scan_digits ?b = 3"
    by (simp add: getWeight_def example_instance_def scan_digits_def i64_def)
  have W: "4 = sum_list (map (getWeight scan_digits) [?a, ?b])" by (simp add: gwa gwb)
  have c: "int (wl_counter NewWeightedLoadBalancer) + 4 < 2 ^ 63"
    by (simp add: NewWeightedLoadBalancer_def)
  have off: "1 = int (wl_counter NewWeightedLoadBalancer + 1) mod 4"
    by (simp add: NewWeightedLoadBalancer_def)
  from Weighted_Select_distribution [OF ne d W c off]
  obtain sel lb' where run:
    "wl_selections scan_digits NewWeightedLoadBalancer [?a, ?b] (nat 4) = Inr (sel, lb')"
    "length sel = nat 4"
    "\<forall>x \<in> set [?a, ?b]. int (count_list sel x) = getWeight scan_digits x"
    by blast
  from run(3) have "count_list sel ?a = 1" "count_list sel ?b = 3"
    by (simp_all add: gwa gwb)
  moreover have "nat 4 = 4" by simp
  ultimately show ?thesis using run(1,2) d gwa gwb by (simp only:) blast
qed

text \<open>
  C7 as stated fails when the weights overflow: four instances of weight \<open>2^62\<close> sum to
  \<open>2^64\<close>, which is 0 in a 64-bit \<open>int\<close>. The first \<open>Select\<close> on a fresh balancer takes the
  round-robin branch and returns the second instance, although the cumulative weight of
  the first instance already exceeds the offset 1.
\<close>

theorem Weighted_Select_overflow_counterexample:
  "getWeight scan_digits (heavy_instances ! 0) = 2 ^ 62 \<and>
   (1::int) < getWeight scan_digits (heavy_instances ! 0) \<and>
   heavy_instances ! 1 \<noteq> heavy_instances ! 0 \<and>
   Weighted_Select scan_digits NewWeightedLoadBalancer heavy_instances =
     (Inr (Some (heavy_instances ! 1)), RoundRobinFallback, \<lparr>wl_counter = 1\<rparr>)"
  by (simp add: heavy_instances_def example_instance_def getWeight_def scan_digits_def i64_def
        Weighted_Select_def NewWeightedLoadBalancer_def atomic_AddUint64_def u64_def go_rem_def
        go_index_def)

text \<open>
  C10, within the range of Go's \<open>int\<close>. \<open>getWeight\<close> returns at least 1 for every
  instance: a missing, unscannable or non-positive \<open>metadata["weight"]\<close> gives 1. For a
  non-empty list whose weights sum to less than \<open>2^63\<close>, the total that \<open>Select\<close> computes
  is that sum, it is at least the length of the list, and \<open>Select\<close> does not take the
  \<open>totalWeight == 0\<close> branch.
\<close>

theorem getWeight_at_least_one:
  "1 \<le> getWeight Sscanf_d x \<and>
   ((Metadata x = None \<or> (\<exists>md. Metadata x = Some md \<and>
       (md ''weight'' = None \<or>
        (\<exists>s. md ''weight'' = Some s \<and>
           (Sscanf_d s = None \<or> (\<exists>w. Sscanf_d s = Some w \<and> - (2 ^ 63) \<le> w \<and> w \<le> 0)))))) \<longrightarrow>
      getWeight Sscanf_d x = 1) \<and>
   (instances \<noteq> [] \<and> sum_list (map (getWeight Sscanf_d) instances) < 2 ^ 63 \<longrightarrow>
      totalWeight_loop (getWeight Sscanf_d) 0 instances =
        sum_list (map (getWeight Sscanf_d) instances) \<and>
      int (length instances) \<le> totalWeight_loop (getWeight Sscanf_d) 0 instances \<and>
      fst (snd (Weighted_Select Sscanf_d lb instances)) \<noteq> RoundRobinFallback \<and>
      fst (snd (Weighted_Select Sscanf_d lb instances)) \<noteq> EmptyList)"
proof (intro conjI impI)
  show "1 \<le> getWeight Sscanf_d x" by (rule getWeight_pos)
  show "getWeight Sscanf_d x = 1"
    if "Metadata x = None \<or> (\<exists>md. Metadata x = Some md \<and>
       (md ''weight'' = None \<or>
        (\<exists>s. md ''weight'' = Some s \<and>
           (Sscanf_d s = None \<or> (\<exists>w. Sscanf_d s = Some w \<and> - (2 ^ 63) \<le> w \<and> w \<le> 0)))))"
    using that getWeight_cases [of x Sscanf_d] by (auto simp: getWeight_def i64_id)
next
  let ?gw = "getWeight Sscanf_d"
  assume a: "instances \<noteq> [] \<and> sum_list (map ?gw instances) < 2 ^ 63"
  have pos: "\<forall>x \<in> set instances. 1 \<le> ?gw x" by (simp add: getWeight_pos)
  show total: "totalWeight_loop ?gw 0 instances = sum_list (map ?gw instances)"
    using totalWeight_loop_exact [OF pos, of 0] a by simp
  have len: "int (length instances) \<le> sum_list (map ?gw instances)"
    by (rule sum_list_weights_nonneg [OF pos])
  then show "int (length instances) \<le> totalWeight_loop ?gw 0 instances"
    by (simp only: total)
  have "0 < length instances" using a by simp
  with len have nz: "totalWeight_loop ?gw 0 instances \<noteq> 0"
    unfolding total by linarith
  show "fst (snd (Weighted_Select Sscanf_d lb instances)) \<noteq> RoundRobinFallback"
    using a nz by (simp add: Weighted_Select_def Let_def split: option.splits sum.splits)
  show "fst (snd (Weighted_Select Sscanf_d lb instances)) \<noteq> EmptyList"
    using a nz by (simp add: Weighted_Select_def Let_def split: option.splits sum.splits)
qed

theorem getWeight_at_least_one_witness:
  "Metadata (example_instance ''a'' None) = None \<and>
   getWeight scan_digits (example_instance ''a'' None) = 1 \<and>
   sum_list (map (getWeight scan_digits)
      [example_instance ''a'' (Some ''1''), example_instance ''b'' (Some ''3'')]) < 2 ^ 63 \<and>
   totalWeight_loop (getWeight scan_digits) 0
      [example_instance ''a'' (Some ''1''), example_instance ''b'' (Some ''3'')] = 4 \<and>
   fst (snd (Weighted_Select scan_digits NewWeightedLoadBalancer
      [example_instance ''a'' (Some ''1''), example_instance ''b'' (Some ''3'')])) \<noteq> RoundRobinFallback"
proof -
  let ?a = "example_instance ''a'' (Some ''1'')"
  let ?b = "example_instance ''b'' (Some ''3'')"
  have m: "Metadata (example_instance ''a'' None) = None" by (simp add: example_instance_def)
  have s: "sum_list (map (getWeight scan_digits) [?a, ?b]) = 4"
    by (simp add: getWeight_def example_instance_def scan_digits_def i64_def)
  have lt: "sum_list (map (getWeight scan_digits) [?a, ?b]) < 2 ^ 63"
    by (simp only: s) simp
  then have h: "[?a, ?b] \<noteq> [] \<and> sum_list (map (getWeight scan_digits) [?a, ?b]) < 2 ^ 63"
    by blast
  note T = getWeight_at_least_one [of scan_digits "example_instance ''a'' None" "[?a, ?b]"
      NewWeightedLoadBalancer]
  from T m have one: "getWeight scan_digits (example_instance ''a'' None) = 1" by blast
  from T h have "totalWeight_loop (getWeight scan_digits) 0 [?a, ?b] =
        sum_list (map (getWeight scan_digits) [?a, ?b])"
    and br: "fst (snd (Weighted_Select scan_digits NewWeightedLoadBalancer [?a, ?b])) \<noteq> RoundRobinFallback"
    by blast+
  then have tot: "totalWeight_loop (getWeight scan_digits) 0 [?a, ?b] = 4"
    by (simp only: s)
  from m one lt tot br show ?thesis by blast
qed

text \<open>
  C10 as stated fails: every one of the four instances has weight \<open>2^62 \<ge> 1\<close>, the total
  wraps around to 0, which is below the length 4 of the list, and \<open>Select\<close> takes the
  \<open>totalWeight == 0\<close> round-robin branch.
\<close>

theorem totalWeight_overflow_counterexample:
  "heavy_instances \<noteq> [] \<and>
   getWeight scan_digits (heavy_instances ! 0) = 2 ^ 62 \<and>
   getWeight scan_digits (heavy_instances ! 1) = 2 ^ 62 \<and>
   getWeight scan_digits (heavy_instances ! 2) = 2 ^ 62 \<and>
   getWeight scan_digits (heavy_instances ! 3) = 2 ^ 62 \<and>
   totalWeight_loop (getWeight scan_digits) 0 heavy_instances = 0 \<and>
   \<not> int (length heavy_instances) \<le> totalWeight_loop (getWeight scan_digits) 0 heavy_instances \<and>
   fst (snd (Weighted_Select scan_digits NewWeightedLoadBalancer heavy_instances)) = RoundRobinFallback"
  by (simp add: heavy_instances_def example_instance_def getWeight_def scan_digits_def i64_def
        Weighted_Select_def NewWeightedLoadBalancer_def atomic_AddUint64_def u64_def go_rem_def
        go_index_def)


section \<open>Properties of the descriptor loader\<close>

lemma findNested_map_of:
  "findNestedMessage msg fullName prefix =
     map_of (concat (map (declared_in prefix) (nested_type msg))) fullName"
  "findNestedMessage_loop ns fullName prefix =
     map_of (concat (map (declared_in prefix) ns)) fullName"
proof (induction msg fullName prefix and ns fullName prefix
    rule: findNestedMessage_findNestedMessage_loop.induct)
  case (1 n ns fullName prefix)
  then show ?case by simp
next
  case (2 fullName prefix)
  show ?case by simp
next
  case (3 nested rest fullName prefix)
  obtain n ns where nested: "nested = DescriptorProto n ns" by (cases nested)
  show ?case
  proof (cases "prefix @ ''.'' @ msg_name nested = fullName")
    case True
    then show ?thesis by (simp add: nested)
  next
    case False
    with 3 show ?thesis
      by (auto simp: nested Let_def map_add_def split: option.splits)
  qed
qed

lemma findMessageInFile_loop_map_of:
  "findMessageInFile_loop ms fullName pkgPrefix =
     map_of (concat (map (declared_in pkgPrefix) ms)) fullName"
proof (induction ms)
  case Nil
  show ?case by simp
next
  case (Cons msg rest)
  obtain n ns where msg: "msg = DescriptorProto n ns" by (cases msg)
  show ?case
    using Cons findNested_map_of(1) [of msg fullName "pkgPrefix @ ''.'' @ msg_name msg"]
    by (auto simp: msg Let_def map_add_def split: option.splits)
qed

lemma FindMessageDescriptor_map_of:
  "FindMessageDescriptor fileSet fullName = map_of (declared_messages fileSet) fullName"
proof (induction fileSet)
  case Nil
  show ?case by (simp add: declared_messages_def)
next
  case (Cons f rest)
  then show ?case
    by (auto simp: declared_messages_def findMessageInFile_def findMessageInFile_loop_map_of
        map_add_def split: option.splits)
qed

text \<open>
  C3, as the loader implements it. \<open>FindMessageDescriptor\<close> walks the files in order,
  recurses into nested types composing dotted names by concatenation, and returns the
  first message declared under the name it is given. So the \<open>input_type\<close> of a method that
  \<open>FindMethodDescriptor\<close> returns resolves to a non-null descriptor whenever it is the
  dotted name (package, enclosing messages, message, no leading dot) of a message declared
  in the set.
\<close>

theorem FindMessageDescriptor_resolves:
  "FindMessageDescriptor fileSet fullName = map_of (declared_messages fileSet) fullName \<and>
   (FindMethodDescriptor fileSet serviceName methodName = Some m \<and>
    input_type m \<in> fst ` set (declared_messages fileSet) \<longrightarrow>
      FindMessageDescriptor fileSet (input_type m) \<noteq> None)"
proof -
  have "map_of (declared_messages fileSet) (input_type m) \<noteq> None"
    if "input_type m \<in> fst ` set (declared_messages fileSet)"
    using that by (simp add: map_of_eq_None_iff)
  then show ?thesis by (simp add: FindMessageDescriptor_map_of)
qed

theorem FindMessageDescriptor_resolves_witness:
  "FindMethodDescriptor [echo_file ''echo.Req'' ''echo.Reply''] ''echo.Echo'' ''Say'' =
     Some \<lparr>method_name = ''Say'', input_type = ''echo.Req'', output_type = ''echo.Reply''\<rparr> \<and>
   ''echo.Req'' \<in> fst ` set (declared_messages [echo_file ''echo.Req'' ''echo.Reply'']) \<and>
   FindMessageDescriptor [echo_file ''echo.Req'' ''echo.Reply''] ''echo.Req'' \<noteq> None"
proof -
  let ?m = "\<lparr>method_name = ''Say'', input_type = ''echo.Req'', output_type = ''echo.Reply''\<rparr>"
  have a: "FindMethodDescriptor [echo_file ''echo.Req'' ''echo.Reply''] ''echo.Echo'' ''Say'' = Some ?m"
    by (simp add: FindMethodDescriptor_def echo_file_def)
  have b: "input_type ?m \<in> fst ` set (declared_messages [echo_file ''echo.Req'' ''echo.Reply''])"
    by (simp add: declared_messages_def echo_file_def)
  from FindMessageDescriptor_resolves [of "[echo_file ''echo.Req'' ''echo.Reply'']" _ "''echo.Echo''" "''Say''" ?m] a b
  have "FindMessageDescriptor [echo_file ''echo.Req'' ''echo.Reply''] (input_type ?m) \<noteq> None"
    by blast
  with a b show ?thesis by simp
qed

text \<open>
  C3 as stated, for every method of the set, fails on the type names that the protobuf
  compiler writes: \<open>input_type\<close> is fully qualified with a leading dot, \<open>.echo.Req\<close>,
  while the loader composes \<open>echo.Req\<close>.
\<close>

theorem FindMessageDescriptor_leading_dot_counterexample:
  "FindMethodDescriptor [echo_file ''.echo.Req'' ''.echo.Reply''] ''echo.Echo'' ''Say'' =
     Some \<lparr>method_name = ''Say'', input_type = ''.echo.Req'', output_type = ''.echo.Reply''\<rparr> \<and>
   FindMessageDescriptor [echo_file ''.echo.Req'' ''.echo.Reply''] ''.echo.Req'' = None"
  by (simp add: FindMethodDescriptor_def echo_file_def findMessageInFile_def)


section \<open>Properties of the connection pool\<close>






section \<open>Properties of the prototype cache\<close>

lemmas example_defs =
  example_externals_def example_world_def example_instance_def echo_file_def
  NewHTTPProxy_def NewConnectionPool_def NewRoundRobinLoadBalancer_def

lemma createDynamicMessage_miss_returns_cached:
  assumes "msgCache p messageType = None"
    and "findFullMessageDescriptor ext p messageType = Some d"
    and "createDynamicMessage ext p w messageType = (r, p', w')"
  shows "r = Inr (length (heap w)) \<and> msgCache p' messageType = Some (length (heap w)) \<and>
         heap w' ! length (heap w) = NewMessage ext d"
  using assms by (auto simp: createDynamicMessage_def Let_def)

lemma createDynamicMessage_hit_returns_clone:
  assumes "msgCache p messageType = Some cached" and "cached < length (heap w)"
    and "createDynamicMessage ext p w messageType = (r, p', w')"
  shows "r = Inr (length (heap w)) \<and> msgCache p' messageType = Some cached \<and>
         length (heap w) \<noteq> cached \<and> heap w' ! length (heap w) = heap w ! cached"
  using assms by (auto simp: createDynamicMessage_def Let_def)

text \<open>
  C1 fails on the code. On the first request for a message type, with an empty cache
  (here for \<open>echo.Req\<close>), \<open>createDynamicMessage\<close> stores the new message in the cache
  and returns that same message: the address returned, 0, is the address cached. Only the
  cache hit returns a clone.
\<close>

theorem createDynamicMessage_first_request_aliases_cache:
  "msgCache (NewHTTPProxy [echo_file ''echo.Req'' ''echo.Reply'']) ''echo.Req'' = None \<and>
   fst (createDynamicMessage (example_externals (Inr []) (Inr 1) None None)
     (NewHTTPProxy [echo_file ''echo.Req'' ''echo.Reply'']) (example_world Ready) ''echo.Req'') =
     Inr 0 \<and>
   msgCache (fst (snd (createDynamicMessage (example_externals (Inr []) (Inr 1) None None)
     (NewHTTPProxy [echo_file ''echo.Req'' ''echo.Reply'']) (example_world Ready) ''echo.Req'')))
     ''echo.Req'' = Some 0"
  by (simp add: createDynamicMessage_def findFullMessageDescriptor_def example_defs)

lemma createDynamicMessage_second_request_clones:
  "createDynamicMessage (example_externals (Inr []) (Inr 1) None None)
     ((NewHTTPProxy [echo_file ''echo.Req'' ''echo.Reply''])\<lparr>msgCache := [''echo.Req'' \<mapsto> 0]\<rparr>)
     ((example_world Ready)\<lparr>heap := [''{}'']\<rparr>) ''echo.Req'' =
     (Inr 1,
      (NewHTTPProxy [echo_file ''echo.Req'' ''echo.Reply''])\<lparr>msgCache := [''echo.Req'' \<mapsto> 0]\<rparr>,
      (example_world Ready)\<lparr>heap := [''{}'', ''{}'']\<rparr>)"
  by (simp add: createDynamicMessage_def findFullMessageDescriptor_def NewHTTPProxy_def
      echo_file_def example_externals_def example_world_def)

section \<open>Properties of the transcoder\<close>

lemma createDynamicMessage_invoked:
  "createDynamicMessage ext p w t = (r, p', w') \<Longrightarrow> invoked w' = invoked w"
  by (auto simp: createDynamicMessage_def Let_def split: option.splits)

lemma jsonToProtobuf_invoked:
  "jsonToProtobuf ext p w json t = (r, p', w') \<Longrightarrow> invoked w' = invoked w"
  by (auto simp: jsonToProtobuf_def split: prod.splits sum.splits option.splits
      dest: createDynamicMessage_invoked)

lemma GetConnection_invoked:
  "GetConnection ext pool w target = (r, pool', w') \<Longrightarrow> invoked w' = invoked w"
  by (auto simp: GetConnection_def GetConnection_locked_def GetConnection_dial_def Let_def
      split: option.splits sum.splits if_splits)

lemma invokeUnary_backend_error:
  assumes "output_type md \<noteq> []"
    and "createDynamicMessage ext p w (output_type md) = (Inr resp, p', w')"
    and "Invoke ext (invoked w') conn fullMethod (heap w' ! req) (heap w' ! resp) = (Some err, m)"
  shows "invokeUnary ext p w conn fullMethod req md =
    (Err err, p', w'\<lparr>heap := (heap w')[resp := m],
                     invoked := invoked w' @ [(conn, fullMethod, heap w' ! req)]\<rparr>)"
  using assms by (simp add: invokeUnary_def Let_def)

text \<open>
  C8. \<open>ProxyHTTPRequest\<close> fails with \<open>NotFound\<close> when the method is absent from the
  descriptor set. Once the method is resolved and the request message is built, it fails
  with \<open>Unavailable\<close> when discovery returns no instances, when the balancer selects nil,
  and when the pool cannot connect. When the backend invocation returns an error, that
  error is the result, code and message unchanged, and the backend has been invoked
  exactly once.
\<close>

theorem ProxyHTTPRequest_error_codes:
  "(FindMethodDescriptor (protoLoader p) sn mn = None \<longrightarrow>
      ProxyHTTPRequest ext sel p w sn mn body =
        (Err (StatusError NotFound (''method not found: '' @ sn @ ''/'' @ mn)), p, w)) \<and>
   (FindMethodDescriptor (protoLoader p) sn mn = Some md \<and> input_type md \<noteq> [] \<and>
    jsonToProtobuf ext p w body (input_type md) = (Inr req, p1, w1) \<longrightarrow>
      (Discover ext sn = Inr [] \<longrightarrow>
         fst (ProxyHTTPRequest ext sel p w sn mn body) =
           Err (StatusError Unavailable (''no available instances for service: '' @ sn))) \<and>
      (\<forall>instances lb.
         Discover ext sn = Inr instances \<and> instances \<noteq> [] \<and>
         sel (loadBalance p1) instances = (Inr None, lb) \<longrightarrow>
         fst (ProxyHTTPRequest ext sel p w sn mn body) =
           Err (StatusError Unavailable (''failed to select instance for service: '' @ sn))) \<and>
      (\<forall>instances lb inst e pool w2.
         Discover ext sn = Inr instances \<and> instances \<noteq> [] \<and>
         sel (loadBalance p1) instances = (Inr (Some inst), lb) \<and>
         GetConnection ext (connPool p1) w1 (target_of inst) = (Inl e, pool, w2) \<longrightarrow>
         fst (ProxyHTTPRequest ext sel p w sn mn body) =
           Err (StatusError Unavailable
             (''failed to connect to backend '' @ target_of inst @ '': '' @ Error e))) \<and>
      (\<forall>instances lb inst conn pool w2 resp p3 w3 err m.
         Discover ext sn = Inr instances \<and> instances \<noteq> [] \<and>
         sel (loadBalance p1) instances = (Inr (Some inst), lb) \<and>
         GetConnection ext (connPool p1) w1 (target_of inst) = (Inr conn, pool, w2) \<and>
         output_type md \<noteq> [] \<and>
         createDynamicMessage ext (p1\<lparr>loadBalance := lb, connPool := pool\<rparr>) w2 (output_type md) =
           (Inr resp, p3, w3) \<and>
         Invoke ext (invoked w3) conn (''/'' @ sn @ ''/'' @ mn) (heap w3 ! req) (heap w3 ! resp) =
           (Some err, m) \<longrightarrow>
         fst (ProxyHTTPRequest ext sel p w sn mn body) = Err err \<and>
         invoked (snd (snd (ProxyHTTPRequest ext sel p w sn mn body))) =
           invoked w @ [(conn, ''/'' @ sn @ ''/'' @ mn, heap w3 ! req)]))"
proof (intro conjI impI allI)
  assume "FindMethodDescriptor (protoLoader p) sn mn = None"
  then show "ProxyHTTPRequest ext sel p w sn mn body =
        (Err (StatusError NotFound (''method not found: '' @ sn @ ''/'' @ mn)), p, w)"
    by (simp add: ProxyHTTPRequest_def)
next
  assume a: "FindMethodDescriptor (protoLoader p) sn mn = Some md \<and> input_type md \<noteq> [] \<and>
    jsonToProtobuf ext p w body (input_type md) = (Inr req, p1, w1)"
  assume "Discover ext sn = Inr []"
  with a show "fst (ProxyHTTPRequest ext sel p w sn mn body) =
           Err (StatusError Unavailable (''no available instances for service: '' @ sn))"
    by (simp add: ProxyHTTPRequest_def)
next
  fix instances lb
  assume a: "FindMethodDescriptor (protoLoader p) sn mn = Some md \<and> input_type md \<noteq> [] \<and>
    jsonToProtobuf ext p w body (input_type md) = (Inr req, p1, w1)"
  assume "Discover ext sn = Inr instances \<and> instances \<noteq> [] \<and>
         sel (loadBalance p1) instances = (Inr None, lb)"
  with a show "fst (ProxyHTTPRequest ext sel p w sn mn body) =
           Err (StatusError Unavailable (''failed to select instance for service: '' @ sn))"
    by (simp add: ProxyHTTPRequest_def)
next
  fix instances lb inst e pool w2
  assume a: "FindMethodDescriptor (protoLoader p) sn mn = Some md \<and> input_type md \<noteq> [] \<and>
    jsonToProtobuf ext p w body (input_type md) = (Inr req, p1, w1)"
  assume "Discover ext sn = Inr instances \<and> instances \<noteq> [] \<and>
         sel (loadBalance p1) instances = (Inr (Some inst), lb) \<and>
         GetConnection ext (connPool p1) w1 (target_of inst) = (Inl e, pool, w2)"
  with a show "fst (ProxyHTTPRequest ext sel p w sn mn body) =
           Err (StatusError Unavailable
             (''failed to connect to backend '' @ target_of inst @ '': '' @ Error e))"
    by (simp add: ProxyHTTPRequest_def Let_def)
next
  fix instances lb inst conn pool w2 resp p3 w3 err m
  assume a: "FindMethodDescriptor (protoLoader p) sn mn = Some md \<and> input_type md \<noteq> [] \<and>
    jsonToProtobuf ext p w body (input_type md) = (Inr req, p1, w1)"
  assume b: "Discover ext sn = Inr instances \<and> instances \<noteq> [] \<and>
         sel (loadBalance p1) instances = (Inr (Some inst), lb) \<and>
         GetConnection ext (connPool p1) w1 (target_of inst) = (Inr conn, pool, w2) \<and>
         output_type md \<noteq> [] \<and>
         createDynamicMessage ext (p1\<lparr>loadBalance := lb, connPool := pool\<rparr>) w2 (output_type md) =
           (Inr resp, p3, w3) \<and>
         Invoke ext (invoked w3) conn (''/'' @ sn @ ''/'' @ mn) (heap w3 ! req) (heap w3 ! resp) =
           (Some err, m)"
  from b have inv: "invokeUnary ext (p1\<lparr>loadBalance := lb, connPool := pool\<rparr>) w2 conn
      (''/'' @ sn @ ''/'' @ mn) req md =
    (Err err, p3, w3\<lparr>heap := (heap w3)[resp := m],
                     invoked := invoked w3 @ [(conn, ''/'' @ sn @ ''/'' @ mn, heap w3 ! req)]\<rparr>)"
    by (intro invokeUnary_backend_error) simp_all
  from a b inv have out: "ProxyHTTPRequest ext sel p w sn mn body =
    (Err err, p3, w3\<lparr>heap := (heap w3)[resp := m],
                     invoked := invoked w3 @ [(conn, ''/'' @ sn @ ''/'' @ mn, heap w3 ! req)]\<rparr>)"
    by (simp add: ProxyHTTPRequest_def Let_def)
  have "invoked w3 = invoked w2" using b createDynamicMessage_invoked by blast
  also have "\<dots> = invoked w1" using b GetConnection_invoked by blast
  also have "\<dots> = invoked w" using a jsonToProtobuf_invoked by blast
  finally have "invoked w3 = invoked w" .
  with out show "fst (ProxyHTTPRequest ext sel p w sn mn body) = Err err"
    and "invoked (snd (snd (ProxyHTTPRequest ext sel p w sn mn body))) =
           invoked w @ [(conn, ''/'' @ sn @ ''/'' @ mn, heap w3 ! req)]"
    by simp_all
qed

lemma target_of_example: "target_of (example_instance i wt) = ''127.0.0.1:50051''"
  by (simp add: target_of_def example_instance_def Itoa_def decimal.simps)

theorem ProxyHTTPRequest_error_codes_witness:
  "fst (ProxyHTTPRequest (example_externals (Inr []) (Inr 1) None None) RoundRobin_Select
          (NewHTTPProxy [echo_file ''echo.Req'' ''echo.Reply'']) (example_world Ready)
          ''echo.Echo'' ''Nope'' ''{}'') =
     Err (StatusError NotFound ''method not found: echo.Echo/Nope'') \<and>
   fst (ProxyHTTPRequest (example_externals (Inr []) (Inr 1) None None) RoundRobin_Select
          (NewHTTPProxy [echo_file ''echo.Req'' ''echo.Reply'']) (example_world Ready)
          ''echo.Echo'' ''Say'' ''{}'') =
     Err (StatusError Unavailable ''no available instances for service: echo.Echo'') \<and>
   fst (ProxyHTTPRequest (example_externals (Inr [example_instance ''a'' None]) (Inr 1) None None)
          (\<lambda>lb instances. (Inr None, lb))
          (NewHTTPProxy [echo_file ''echo.Req'' ''echo.Reply'']) (example_world Ready)
          ''echo.Echo'' ''Say'' ''{}'') =
     Err (StatusError Unavailable ''failed to select instance for service: echo.Echo'') \<and>
   fst (ProxyHTTPRequest
          (example_externals (Inr [example_instance ''a'' None])
             (Inl (PlainError ''connection refused'')) None None) RoundRobin_Select
          (NewHTTPProxy [echo_file ''echo.Req'' ''echo.Reply'']) (example_world Ready)
          ''echo.Echo'' ''Say'' ''{}'') =
     Err (StatusError Unavailable
       ''failed to connect to backend 127.0.0.1:50051: connection refused'') \<and>
   fst (ProxyHTTPRequest
          (example_externals (Inr [example_instance ''a'' None]) (Inr 1) None
             (Some (StatusError PermissionDenied ''denied''))) RoundRobin_Select
          (NewHTTPProxy [echo_file ''echo.Req'' ''echo.Reply'']) (example_world Ready)
          ''echo.Echo'' ''Say'' ''{}'') =
     Err (StatusError PermissionDenied ''denied'') \<and>
   invoked (snd (snd (ProxyHTTPRequest
          (example_externals (Inr [example_instance ''a'' None]) (Inr 1) None
             (Some (StatusError PermissionDenied ''denied''))) RoundRobin_Select
          (NewHTTPProxy [echo_file ''echo.Req'' ''echo.Reply'']) (example_world Ready)
          ''echo.Echo'' ''Say'' ''{}''))) =
     [(1, ''/echo.Echo/Say'', ''{}'')]"
proof -
  let ?p = "NewHTTPProxy [echo_file ''echo.Req'' ''echo.Reply'']"
  let ?w = "example_world Ready"
  let ?a = "example_instance ''a'' None"
  let ?md = "\<lparr>method_name = ''Say'', input_type = ''echo.Req'', output_type = ''echo.Reply''\<rparr>"
  let ?p1 = "?p\<lparr>msgCache := [''echo.Req'' \<mapsto> 0]\<rparr>"
  let ?w1 = "?w\<lparr>heap := [''{}'']\<rparr>"
  let ?t = "''127.0.0.1:50051''"
  let ?err = "StatusError PermissionDenied ''denied''"
  let ?e0 = "example_externals (Inr []) (Inr 1) None None"
  let ?e1 = "example_externals (Inr [?a]) (Inl (PlainError ''connection refused'')) None None"
  let ?e2 = "example_externals (Inr [?a]) (Inr 1) None (Some ?err)"
  have nf: "FindMethodDescriptor (protoLoader ?p) ''echo.Echo'' ''Nope'' = None"
    by (simp add: FindMethodDescriptor_def example_defs)
  have md: "FindMethodDescriptor (protoLoader ?p) ''echo.Echo'' ''Say'' = Some ?md"
    by (simp add: FindMethodDescriptor_def example_defs)
  have json: "jsonToProtobuf (example_externals disc dial None call) ?p ?w ''{}'' (input_type ?md) =
      (Inr 0, ?p1, ?w1)" for disc dial call
    by (simp add: jsonToProtobuf_def createDynamicMessage_def findFullMessageDescriptor_def
        example_defs)
  have sel: "RoundRobin_Select (loadBalance ?p1) [?a] = (Inr (Some ?a), \<lparr>rr_counter = 1\<rparr>)"
    by (simp add: RoundRobin_Select_def atomic_AddUint64_def u64_def i64_def go_rem_def
        go_index_def NewHTTPProxy_def NewRoundRobinLoadBalancer_def)
  have c1: "fst (ProxyHTTPRequest ?e0 RoundRobin_Select ?p ?w ''echo.Echo'' ''Nope'' ''{}'') =
      Err (StatusError NotFound ''method not found: echo.Echo/Nope'')"
    using ProxyHTTPRequest_error_codes [of ?p "''echo.Echo''" "''Nope''" ?e0 RoundRobin_Select ?w "''{}''"]
      nf by simp
  have a0: "FindMethodDescriptor (protoLoader ?p) ''echo.Echo'' ''Say'' = Some ?md \<and>
      input_type ?md \<noteq> [] \<and>
      jsonToProtobuf ?e0 ?p ?w ''{}'' (input_type ?md) = (Inr 0, ?p1, ?w1)"
    using md json by simp
  have d0: "Discover ?e0 ''echo.Echo'' = Inr []" by (simp add: example_defs)
  have c2: "fst (ProxyHTTPRequest ?e0 RoundRobin_Select ?p ?w ''echo.Echo'' ''Say'' ''{}'') =
      Err (StatusError Unavailable ''no available instances for service: echo.Echo'')"
    using ProxyHTTPRequest_error_codes [of ?p "''echo.Echo''" "''Say''" ?e0 RoundRobin_Select ?w "''{}''"
        ?md 0 ?p1 ?w1] a0 d0 by simp
  let ?e3 = "example_externals (Inr [?a]) (Inr 1) None None"
  let ?nil = "\<lambda>(lb :: RoundRobinLoadBalancer) (instances :: ServiceInstance list).
                (Inr None :: go_panic + ServiceInstance option, lb)"
  have a3: "FindMethodDescriptor (protoLoader ?p) ''echo.Echo'' ''Say'' = Some ?md \<and>
      input_type ?md \<noteq> [] \<and>
      jsonToProtobuf ?e3 ?p ?w ''{}'' (input_type ?md) = (Inr 0, ?p1, ?w1)"
    using md json by simp
  have b3: "Discover ?e3 ''echo.Echo'' = Inr [?a] \<and> [?a] \<noteq> [] \<and>
      ?nil (loadBalance ?p1) [?a] = (Inr None, loadBalance ?p1)"
    by (simp add: example_externals_def)
  from ProxyHTTPRequest_error_codes [of ?p "''echo.Echo''" "''Say''" ?e3 ?nil ?w "''{}''"
        ?md 0 ?p1 ?w1] a3
  have "\<forall>instances lb.
         Discover ?e3 ''echo.Echo'' = Inr instances \<and> instances \<noteq> [] \<and>
         ?nil (loadBalance ?p1) instances = (Inr None, lb) \<longrightarrow>
         fst (ProxyHTTPRequest ?e3 ?nil ?p ?w ''echo.Echo'' ''Say'' ''{}'') =
           Err (StatusError Unavailable (''failed to select instance for service: '' @ ''echo.Echo''))"
    by blast
  from this [rule_format, OF b3]
  have c6: "fst (ProxyHTTPRequest ?e3 ?nil ?p ?w ''echo.Echo'' ''Say'' ''{}'') =
      Err (StatusError Unavailable ''failed to select instance for service: echo.Echo'')"
    by simp
  have a1: "FindMethodDescriptor (protoLoader ?p) ''echo.Echo'' ''Say'' = Some ?md \<and>
      input_type ?md \<noteq> [] \<and>
      jsonToProtobuf ?e1 ?p ?w ''{}'' (input_type ?md) = (Inr 0, ?p1, ?w1)"
    using md json by simp
  have b1: "Discover ?e1 ''echo.Echo'' = Inr [?a] \<and> [?a] \<noteq> [] \<and>
      RoundRobin_Select (loadBalance ?p1) [?a] = (Inr (Some ?a), \<lparr>rr_counter = 1\<rparr>) \<and>
      GetConnection ?e1 (connPool ?p1) ?w1 (target_of ?a) =
        (Inl (PlainError ''connection refused''), connPool ?p1, ?w1\<lparr>dialed := [?t]\<rparr>)"
    using sel
    by (simp add: target_of_example GetConnection_def GetConnection_locked_def
        GetConnection_dial_def example_externals_def example_world_def NewHTTPProxy_def
        NewConnectionPool_def)
  from ProxyHTTPRequest_error_codes [of ?p "''echo.Echo''" "''Say''" ?e1 RoundRobin_Select ?w "''{}''"
        ?md 0 ?p1 ?w1] a1
  have "\<forall>instances lb inst e pool w2.
         Discover ?e1 ''echo.Echo'' = Inr instances \<and> instances \<noteq> [] \<and>
         RoundRobin_Select (loadBalance ?p1) instances = (Inr (Some inst), lb) \<and>
         GetConnection ?e1 (connPool ?p1) ?w1 (target_of inst) = (Inl e, pool, w2) \<longrightarrow>
         fst (ProxyHTTPRequest ?e1 RoundRobin_Select ?p ?w ''echo.Echo'' ''Say'' ''{}'') =
           Err (StatusError Unavailable
             (''failed to connect to backend '' @ target_of inst @ '': '' @ Error e))"
    by blast
  from this [rule_format, OF b1]
  have c3: "fst (ProxyHTTPRequest ?e1 RoundRobin_Select ?p ?w ''echo.Echo'' ''Say'' ''{}'') =
      Err (StatusError Unavailable
        ''failed to connect to backend 127.0.0.1:50051: connection refused'')"
    by (simp add: target_of_example)
  let ?pool = "\<lparr>connections = [?t \<mapsto> 1]\<rparr>"
  let ?w2 = "?w1\<lparr>dialed := [?t]\<rparr>"
  let ?p3 = "?p1\<lparr>loadBalance := \<lparr>rr_counter = 1\<rparr>, connPool := ?pool,
               msgCache := [''echo.Req'' \<mapsto> 0, ''echo.Reply'' \<mapsto> 1]\<rparr>"
  let ?w3 = "?w2\<lparr>heap := [''{}'', ''{}'']\<rparr>"
  have a2: "FindMethodDescriptor (protoLoader ?p) ''echo.Echo'' ''Say'' = Some ?md \<and>
      input_type ?md \<noteq> [] \<and>
      jsonToProtobuf ?e2 ?p ?w ''{}'' (input_type ?md) = (Inr 0, ?p1, ?w1)"
    using md json by simp
  have conn: "GetConnection ?e2 (connPool ?p1) ?w1 (target_of ?a) = (Inr 1, ?pool, ?w2)"
    by (simp add: target_of_example GetConnection_def GetConnection_locked_def
        GetConnection_dial_def example_externals_def example_world_def NewHTTPProxy_def
        NewConnectionPool_def)
  have resp: "createDynamicMessage ?e2 (?p1\<lparr>loadBalance := \<lparr>rr_counter = 1\<rparr>, connPool := ?pool\<rparr>)
      ?w2 (output_type ?md) = (Inr 1, ?p3, ?w3)"
    by (simp add: createDynamicMessage_def findFullMessageDescriptor_def example_defs)
  have call: "Invoke ?e2 (invoked ?w3) 1 (''/'' @ ''echo.Echo'' @ ''/'' @ ''Say'')
      (heap ?w3 ! 0) (heap ?w3 ! 1) = (Some ?err, ''{}'')"
    by (simp add: example_defs)
  have b2: "Discover ?e2 ''echo.Echo'' = Inr [?a] \<and> [?a] \<noteq> [] \<and>
      RoundRobin_Select (loadBalance ?p1) [?a] = (Inr (Some ?a), \<lparr>rr_counter = 1\<rparr>) \<and>
      GetConnection ?e2 (connPool ?p1) ?w1 (target_of ?a) = (Inr 1, ?pool, ?w2) \<and>
      output_type ?md \<noteq> [] \<and>
      createDynamicMessage ?e2 (?p1\<lparr>loadBalance := \<lparr>rr_counter = 1\<rparr>, connPool := ?pool\<rparr>)
        ?w2 (output_type ?md) = (Inr 1, ?p3, ?w3) \<and>
      Invoke ?e2 (invoked ?w3) 1 (''/'' @ ''echo.Echo'' @ ''/'' @ ''Say'')
        (heap ?w3 ! 0) (heap ?w3 ! 1) = (Some ?err, ''{}'')"
    using sel conn resp call by (simp add: example_externals_def)
  from ProxyHTTPRequest_error_codes [of ?p "''echo.Echo''" "''Say''" ?e2 RoundRobin_Select ?w "''{}''"
        ?md 0 ?p1 ?w1] a2
  have "\<forall>instances lb inst conn pool w2 resp p3 w3 err m.
         Discover ?e2 ''echo.Echo'' = Inr instances \<and> instances \<noteq> [] \<and>
         RoundRobin_Select (loadBalance ?p1) instances = (Inr (Some inst), lb) \<and>
         GetConnection ?e2 (connPool ?p1) ?w1 (target_of inst) = (Inr conn, pool, w2) \<and>
         output_type ?md \<noteq> [] \<and>
         createDynamicMessage ?e2 (?p1\<lparr>loadBalance := lb, connPool := pool\<rparr>) w2 (output_type ?md) =
           (Inr resp, p3, w3) \<and>
         Invoke ?e2 (invoked w3) conn (''/'' @ ''echo.Echo'' @ ''/'' @ ''Say'') (heap w3 ! 0)
           (heap w3 ! resp) = (Some err, m) \<longrightarrow>
         fst (ProxyHTTPRequest ?e2 RoundRobin_Select ?p ?w ''echo.Echo'' ''Say'' ''{}'') = Err err \<and>
         invoked (snd (snd (ProxyHTTPRequest ?e2 RoundRobin_Select ?p ?w ''echo.Echo'' ''Say'' ''{}''))) =
           invoked ?w @ [(conn, ''/'' @ ''echo.Echo'' @ ''/'' @ ''Say'', heap w3 ! 0)]"
    by blast
  from this [rule_format, OF b2]
  have c4: "fst (ProxyHTTPRequest ?e2 RoundRobin_Select ?p ?w ''echo.Echo'' ''Say'' ''{}'') = Err ?err"
    and c5: "invoked (snd (snd (ProxyHTTPRequest ?e2 RoundRobin_Select ?p ?w ''echo.Echo'' ''Say'' ''{}''))) =
      [(1, ''/echo.Echo/Say'', ''{}'')]"
    by (simp_all add: example_world_def)
  from c1 c2 c6 c3 c4 c5 show ?thesis by blast
qed

section \<open>Properties of the HTTP handler\<close>

lemma ParseHTTPRequest_not_health:
  "ParseHTTPRequest path body = Inr httpReq \<Longrightarrow> path \<noteq> ''/health''"
  by (auto simp: ParseHTTPRequest_def path_parts_def strings_Trim_def)

lemma ProxyHTTPRequest_unmarshal_failure:
  assumes "FindMethodDescriptor (protoLoader p) serviceName methodName = Some md"
    and "input_type md \<noteq> []"
    and "createDynamicMessage ext p w (input_type md) = (Inr msg, p1, w1)"
    and "Unmarshal ext body (heap w1 ! msg) = (Some err, m)"
  shows "ProxyHTTPRequest ext sel p w serviceName methodName body =
      (Err (StatusError InvalidArgument
         (''failed to unmarshal request: failed to unmarshal JSON: '' @ Error err)), p1,
       w1\<lparr>heap := (heap w1)[msg := m]\<rparr>)"
proof -
  have "jsonToProtobuf ext p w body (input_type md) =
      (Inl (PlainError (''failed to unmarshal JSON: '' @ Error err)), p1,
       w1\<lparr>heap := (heap w1)[msg := m]\<rparr>)"
    using assms(3,4) by (simp add: jsonToProtobuf_def)
  with assms(1,2) show ?thesis by (simp add: ProxyHTTPRequest_def)
qed

text \<open>
  C2, as the handler does it. For a POST request whose path parses and whose method
  resolves, when the body fails protobuf-JSON unmarshalling into the request message, the
  transcoder returns a status error with code \<open>InvalidArgument\<close>, and the handler answers
  500 with the text of that error.
\<close>

theorem handleRequest_malformed_body:
  assumes "httpProxy s = Some p" and "r_Method r = ''POST''" and "r_Body r = Inr body"
    and "ParseHTTPRequest (r_URL_Path r) body = Inr httpReq"
    and "FindMethodDescriptor (protoLoader p) (ServiceName httpReq) (MethodName httpReq) = Some md"
    and "input_type md \<noteq> []"
    and "createDynamicMessage ext p w (input_type md) = (Inr msg, p1, w1)"
    and "Unmarshal ext body (heap w1 ! msg) = (Some err, m)"
  shows "fst (ProxyHTTPRequest ext sel p w (ServiceName httpReq) (MethodName httpReq) body) =
           Err (StatusError InvalidArgument
             (''failed to unmarshal request: failed to unmarshal JSON: '' @ Error err)) \<and>
         fst (handleRequest ext sel s w r) =
           Inr \<lparr>StatusCode = 500, ContentType = None,
                Written = ''RPC call failed: rpc error: code = InvalidArgument desc = '' @
                  ''failed to unmarshal request: failed to unmarshal JSON: '' @ Error err\<rparr>"
proof -
  have out: "ProxyHTTPRequest ext sel p w (ServiceName httpReq) (MethodName httpReq) body =
      (Err (StatusError InvalidArgument
         (''failed to unmarshal request: failed to unmarshal JSON: '' @ Error err)), p1,
       w1\<lparr>heap := (heap w1)[msg := m]\<rparr>)"
    by (rule ProxyHTTPRequest_unmarshal_failure [OF assms(5-8)])
  have "r_URL_Path r \<noteq> ''/health''"
    using assms(4) by (rule ParseHTTPRequest_not_health)
  then have "fst (handleRequest ext sel s w r) =
           Inr \<lparr>StatusCode = 500, ContentType = None,
                Written = ''RPC call failed: rpc error: code = InvalidArgument desc = '' @
                  ''failed to unmarshal request: failed to unmarshal JSON: '' @ Error err\<rparr>"
    using assms(1-4) out by (simp add: handleRequest_def)
  with out show ?thesis by simp
qed

theorem handleRequest_malformed_body_witness:
  "ParseHTTPRequest ''/rpc/echo.Echo/Say'' ''{'' =
     Inr \<lparr>Tenant = [], ServiceName = ''echo.Echo'', MethodName = ''Say'', Body = ''{''\<rparr> \<and>
   fst (ProxyHTTPRequest
          (example_externals (Inr []) (Inr 1) (Some (PlainError ''unexpected end of input'')) None)
          RoundRobin_Select (NewHTTPProxy [echo_file ''echo.Req'' ''echo.Reply''])
          (example_world Ready) ''echo.Echo'' ''Say'' ''{'') =
     Err (StatusError InvalidArgument
       ''failed to unmarshal request: failed to unmarshal JSON: unexpected end of input'')"
proof -
  let ?ext = "example_externals (Inr []) (Inr 1) (Some (PlainError ''unexpected end of input'')) None"
  let ?p = "NewHTTPProxy [echo_file ''echo.Req'' ''echo.Reply'']"
  let ?w = "example_world Ready"
  let ?s = "\<lparr>httpProxy = Some ?p\<rparr>"
  let ?r = "\<lparr>r_URL_Path = ''/rpc/echo.Echo/Say'', r_Method = ''POST'', r_Body = Inr ''{''\<rparr>"
  let ?req = "\<lparr>Tenant = [], ServiceName = ''echo.Echo'', MethodName = ''Say'', Body = ''{''\<rparr>"
  let ?md = "\<lparr>method_name = ''Say'', input_type = ''echo.Req'', output_type = ''echo.Reply''\<rparr>"
  have h1: "httpProxy ?s = Some ?p" by simp
  have h2: "r_Method ?r = ''POST''" by simp
  have h3: "r_Body ?r = Inr ''{''" by simp
  have h4: "ParseHTTPRequest (r_URL_Path ?r) ''{'' = Inr ?req"
    by (simp add: ParseHTTPRequest_def path_parts_def strings_Trim_def)
  have h5: "FindMethodDescriptor (protoLoader ?p) (ServiceName ?req) (MethodName ?req) = Some ?md"
    by (simp add: FindMethodDescriptor_def example_defs)
  have h6: "input_type ?md \<noteq> []" by simp
  have h7: "createDynamicMessage ?ext ?p ?w (input_type ?md) =
      (Inr 0, ?p\<lparr>msgCache := [''echo.Req'' \<mapsto> 0]\<rparr>, ?w\<lparr>heap := [''{}'']\<rparr>)"
    by (simp add: createDynamicMessage_def findFullMessageDescriptor_def example_defs)
  have h8: "Unmarshal ?ext ''{'' (heap (?w\<lparr>heap := [''{}'']\<rparr>) ! 0) =
      (Some (PlainError ''unexpected end of input''), ''{}'')"
    by (simp add: example_defs)
  from handleRequest_malformed_body [OF h1 h2 h3 h4 h5 h6 h7 h8, of RoundRobin_Select] h4
  show ?thesis by simp
qed

text \<open>
  C2 as stated, a response status 400, fails: the malformed body \<open>{\<close> posted to
  \<open>/rpc/echo.Echo/Say\<close> is answered with 500.
\<close>

theorem handleRequest_malformed_body_counterexample:
  "fst (handleRequest
          (example_externals (Inr []) (Inr 1) (Some (PlainError ''unexpected end of input'')) None)
          RoundRobin_Select \<lparr>httpProxy = Some (NewHTTPProxy [echo_file ''echo.Req'' ''echo.Reply''])\<rparr>
          (example_world Ready)
          \<lparr>r_URL_Path = ''/rpc/echo.Echo/Say'', r_Method = ''POST'', r_Body = Inr ''{''\<rparr>) =
     Inr \<lparr>StatusCode = 500, ContentType = None,
          Written = ''RPC call failed: rpc error: code = InvalidArgument desc = failed to unmarshal request: failed to unmarshal JSON: unexpected end of input''\<rparr>"
proof -
  let ?ext = "example_externals (Inr []) (Inr 1) (Some (PlainError ''unexpected end of input'')) None"
  let ?p = "NewHTTPProxy [echo_file ''echo.Req'' ''echo.Reply'']"
  let ?w = "example_world Ready"
  let ?s = "\<lparr>httpProxy = Some ?p\<rparr>"
  let ?r = "\<lparr>r_URL_Path = ''/rpc/echo.Echo/Say'', r_Method = ''POST'', r_Body = Inr ''{''\<rparr>"
  let ?req = "\<lparr>Tenant = [], ServiceName = ''echo.Echo'', MethodName = ''Say'', Body = ''{''\<rparr>"
  let ?md = "\<lparr>method_name = ''Say'', input_type = ''echo.Req'', output_type = ''echo.Reply''\<rparr>"
  have h4: "ParseHTTPRequest (r_URL_Path ?r) ''{'' = Inr ?req"
    by (simp add: ParseHTTPRequest_def path_parts_def strings_Trim_def)
  have h5: "FindMethodDescriptor (protoLoader ?p) (ServiceName ?req) (MethodName ?req) = Some ?md"
    by (simp add: FindMethodDescriptor_def example_defs)
  have h6: "input_type ?md \<noteq> []" by simp
  have h7: "createDynamicMessage ?ext ?p ?w (input_type ?md) =
      (Inr 0, ?p\<lparr>msgCache := [''echo.Req'' \<mapsto> 0]\<rparr>, ?w\<lparr>heap := [''{}'']\<rparr>)"
    by (simp add: createDynamicMessage_def findFullMessageDescriptor_def example_defs)
  have h8: "Unmarshal ?ext ''{'' (heap (?w\<lparr>heap := [''{}'']\<rparr>) ! 0) =
      (Some (PlainError ''unexpected end of input''), ''{}'')"
    by (simp add: example_defs)
  have out: "ProxyHTTPRequest ?ext RoundRobin_Select ?p ?w ''echo.Echo'' ''Say'' ''{'' =
      (Err (StatusError InvalidArgument
         (''failed to unmarshal request: failed to unmarshal JSON: '' @
            Error (PlainError ''unexpected end of input''))), ?p\<lparr>msgCache := [''echo.Req'' \<mapsto> 0]\<rparr>,
       ?w\<lparr>heap := [''{}''], heap := [''{}''][0 := ''{}'']\<rparr>)"
    using ProxyHTTPRequest_unmarshal_failure [OF h5 h6 h7 h8, of RoundRobin_Select] by simp
  have "r_URL_Path ?r \<noteq> ''/health''" by simp
  then show ?thesis
    using h4 out by (simp add: handleRequest_def)
qed

section \<open>Properties of the stream forwarder\<close>

lemma strings_Split_no_sep: "sep \<notin> set s \<Longrightarrow> strings_Split s sep = [s]"
  by (induction s) auto

lemma ProxyStream_panics:
  assumes "CHR ''/'' \<notin> set fullMethod"
    and "Discover ext serviceName = Inr instances" and "instances \<noteq> []"
    and "sel (g_loadBalance p) instances = (Inr (Some inst), lb)"
    and "GetConnection ext (g_connPool p) w (target_of inst) = (Inr conn, pool, w1)"
  shows "fst (ProxyStream ext sel p w serviceName fullMethod stream) = Panic IndexOutOfRange"
  using assms
  by (simp add: ProxyStream_def Let_def strings_Split_no_sep go_index_def)

text \<open>
  C4 fails on the code. For the standard path \<open>/echo.Echo/Say\<close>, with one instance
  registered and the dial succeeding, the handler passes the parsed method name \<open>Say\<close> as
  \<open>fullMethod\<close>; its split on \<open>/\<close> has one element and the access to element 1 panics.
\<close>

theorem handleUnknownService_standard_path_panics:
  "ParseServiceAndMethod \<lparr>MethodFromServerStream = Some ''/echo.Echo/Say''\<rparr> =
     Inr (''echo.Echo'', ''Say'') \<and>
   fst (handleUnknownService
          (example_externals (Inr [example_instance ''a'' None]) (Inr 1) None None)
          RoundRobin_Select \<lparr>proxy = Some NewGRPCProxy\<rparr> (example_world Ready)
          \<lparr>MethodFromServerStream = Some ''/echo.Echo/Say''\<rparr>) =
     Panic IndexOutOfRange"
proof -
  let ?ext = "example_externals (Inr [example_instance ''a'' None]) (Inr 1) None None"
  let ?w = "example_world Ready"
  have parse: "ParseServiceAndMethod \<lparr>MethodFromServerStream = Some ''/echo.Echo/Say''\<rparr> =
     Inr (''echo.Echo'', ''Say'')"
    by (simp add: ParseServiceAndMethod_def strings_TrimPrefix_def Let_def)
  have sel: "RoundRobin_Select (g_loadBalance NewGRPCProxy) [example_instance ''a'' None] =
      (Inr (Some (example_instance ''a'' None)), \<lparr>rr_counter = 1\<rparr>)"
    by (simp add: RoundRobin_Select_def NewGRPCProxy_def NewRoundRobinLoadBalancer_def
        atomic_AddUint64_def u64_def i64_def go_rem_def go_index_def)
  have conn: "GetConnection ?ext (g_connPool NewGRPCProxy) ?w (target_of (example_instance ''a'' None)) =
      (Inr 1, \<lparr>connections = [''127.0.0.1:50051'' \<mapsto> 1]\<rparr>, ?w\<lparr>dialed := [''127.0.0.1:50051'']\<rparr>)"
    by (simp add: target_of_example GetConnection_def GetConnection_locked_def
        GetConnection_dial_def NewGRPCProxy_def NewConnectionPool_def example_externals_def
        example_world_def)
  have "fst (ProxyStream ?ext RoundRobin_Select NewGRPCProxy ?w ''echo.Echo'' ''Say''
          \<lparr>MethodFromServerStream = Some ''/echo.Echo/Say''\<rparr>) = Panic IndexOutOfRange"
    by (rule ProxyStream_panics [where sel = RoundRobin_Select and p = NewGRPCProxy
          and instances = "[example_instance ''a'' None]", OF _ _ _ sel conn])
      (simp_all add: example_externals_def)
  then show ?thesis
    by (auto simp: handleUnknownService_def parse split: prod.splits)
qed

end
